theory Spec2Isabelle
  imports Main "HOL-Library.Sublist"
begin

text \<open>
  An embedding of \<^verbatim>\<open>generator.py\<close>, \<^verbatim>\<open>handlers.py\<close> and \<^verbatim>\<open>main.py\<close>. Each function
  keeps its name, without the leading underscore of the private ones. A function that
  calls the model provider or the remote store takes the log of the calls made so far and
  returns it extended; a function that can raise returns \<open>Inl\<close> of the exception.
\<close>

section \<open>Python values and exceptions\<close>

text \<open>
  The values that \<^verbatim>\<open>ast.literal_eval\<close> can produce and that the file sets carry.
  A \<^verbatim>\<open>dict\<close> is an association list in insertion order (Python dicts keep it, and
  the publisher writes files in that order). Text and bytes are both byte strings here:
  a \<^verbatim>\<open>str\<close> stands for its UTF-8 encoding, so \<^verbatim>\<open>content.encode('utf-8')\<close> keeps
  the characters (the braces, quotes and commas the code looks for are ASCII bytes, which
  occur in UTF-8 only as themselves). \<open>PyOpaque\<close> stands for the remaining values (floats, complex
  numbers, Ellipsis), named by their \<^verbatim>\<open>repr\<close>.
\<close>

datatype pyval =
    PyNone
  | PyBool bool
  | PyInt int
  | PyStr string
  | PyBytes string
  | PyOpaque string
  | PyList "pyval list"
  | PyTuple "pyval list"
  | PySet "pyval list"
  | PyDict "(pyval \<times> pyval) list"

type_synonym pydict = "(pyval \<times> pyval) list"

datatype exc_class =
    Exception | ValueError | SyntaxError | TypeError | IndexError | KeyError | AttributeError
  | MemoryError | RecursionError | BinasciiError | ConnectionError

text \<open>An exception is its class and its message \<^verbatim>\<open>str(e)\<close>.\<close>

type_synonym pyexc = "exc_class \<times> string"

text \<open>
  \<^verbatim>\<open>except (ValueError, SyntaxError)\<close>: the classes that clause catches.
  \<^verbatim>\<open>binascii.Error\<close> is a subclass of \<^verbatim>\<open>ValueError\<close>.
\<close>

fun is_value_or_syntax_error :: "exc_class \<Rightarrow> bool" where
  "is_value_or_syntax_error ValueError = True"
| "is_value_or_syntax_error SyntaxError = True"
| "is_value_or_syntax_error BinasciiError = True"
| "is_value_or_syntax_error _ = False"

text \<open>
  Python truthiness, as \<^verbatim>\<open>if not latest_commit_sha\<close> and \<^verbatim>\<open>if existing_file_sha\<close> read it.
  Among the floats and complex numbers the zeros are false; \<open>zero_reprs\<close> lists what
  \<^verbatim>\<open>repr\<close> gives for them.
\<close>

definition zero_reprs :: "string list" where
  "zero_reprs = [''0.0'', ''-0.0'', ''0j'', ''-0j'', ''(-0+0j)'', ''(-0-0j)'']"

fun truthy :: "pyval \<Rightarrow> bool" where
  "truthy PyNone = False"
| "truthy (PyBool b) = b"
| "truthy (PyInt i) = (i \<noteq> 0)"
| "truthy (PyStr s) = (s \<noteq> [])"
| "truthy (PyBytes s) = (s \<noteq> [])"
| "truthy (PyOpaque s) = (s \<notin> set zero_reprs)"
| "truthy (PyList xs) = (xs \<noteq> [])"
| "truthy (PyTuple xs) = (xs \<noteq> [])"
| "truthy (PySet xs) = (xs \<noteq> [])"
| "truthy (PyDict kvs) = (kvs \<noteq> [])"

fun hashable :: "pyval \<Rightarrow> bool" where
  "hashable (PyList xs) = False"
| "hashable (PySet xs) = False"
| "hashable (PyDict kvs) = False"
| "hashable (PyTuple xs) = list_all hashable xs"
| "hashable _ = True"

text \<open>The type name in the message of a \<^verbatim>\<open>TypeError\<close>.\<close>

fun type_name :: "pyval \<Rightarrow> string" where
  "type_name PyNone = ''NoneType''"
| "type_name (PyBool b) = ''bool''"
| "type_name (PyInt i) = ''int''"
| "type_name (PyStr s) = ''str''"
| "type_name (PyBytes s) = ''bytes''"
| "type_name (PyOpaque s) = ''float''"
| "type_name (PyList xs) = ''list''"
| "type_name (PyTuple xs) = ''tuple''"
| "type_name (PySet xs) = ''set''"
| "type_name (PyDict kvs) = ''dict''"

text \<open>\<^verbatim>\<open>hash(v)\<close> on a list, a set or a dict.\<close>

definition unhashable :: "pyval \<Rightarrow> pyexc" where
  "unhashable v = (TypeError, ''unhashable type: '' @ [CHR 0x27] @ type_name v @ [CHR 0x27])"

text \<open>
  \<^verbatim>\<open>d[k] = v\<close> and \<^verbatim>\<open>d.update(other)\<close> on a dict in insertion order: a key that is present
  keeps its place.
\<close>

fun dict_put :: "'k \<Rightarrow> 'v \<Rightarrow> ('k \<times> 'v) list \<Rightarrow> ('k \<times> 'v) list" where
  "dict_put k v [] = [(k, v)]"
| "dict_put k v ((k', v') # rest) = (if k' = k then (k', v) # rest else (k', v') # dict_put k v rest)"

definition dict_update :: "('k \<times> 'v) list \<Rightarrow> ('k \<times> 'v) list \<Rightarrow> ('k \<times> 'v) list" where
  "dict_update d other = foldl (\<lambda>acc kv. dict_put (fst kv) (snd kv) acc) d other"

text \<open>
  The library functions the code calls, taken as parameters: every theorem below that
  quantifies over \<open>L\<close> holds whatever these functions answer.
  \<^item> \<open>literal_eval\<close> is \<^verbatim>\<open>ast.literal_eval\<close> on a \<^verbatim>\<open>str\<close>: the value, or the exception raised;
  \<^item> \<open>b64decode\<close> is \<^verbatim>\<open>base64.b64decode\<close> on a \<^verbatim>\<open>str\<close>: the bytes, or the exception raised;
  \<^item> \<open>str_of\<close> is \<^verbatim>\<open>str()\<close>, as an f-string applies it to a value that is not a \<^verbatim>\<open>str\<close>.
\<close>

record pylib =
  literal_eval :: "string \<Rightarrow> pyexc + pyval"
  b64decode :: "string \<Rightarrow> pyexc + string"
  str_of :: "pyval \<Rightarrow> string"

text \<open>
  \<^verbatim>\<open>ast.literal_eval(value)\<close> on an object: a \<^verbatim>\<open>str\<close> is parsed; any other object
  of the kinds above is neither a string nor a syntax node and raises
  \<^verbatim>\<open>ValueError("malformed node or string: ...")\<close>.
\<close>

definition literal_eval_obj :: "pylib \<Rightarrow> pyval \<Rightarrow> pyexc + pyval" where
  "literal_eval_obj L v =
     (case v of PyStr s \<Rightarrow> literal_eval L s
      | _ \<Rightarrow> Inl (ValueError, ''malformed node or string''))"

text \<open>A value inside an f-string.\<close>

definition format_value :: "pylib \<Rightarrow> pyval \<Rightarrow> string" where
  "format_value L v = (case v of PyStr s \<Rightarrow> s | _ \<Rightarrow> str_of L v)"

section \<open>The outside world\<close>

text \<open>
  The prompts are f-strings over the task's fields, read only by the model provider; a
  prompt is kept here as its fields, not as the rendered text.
\<close>

type_synonym attachment_dict = "string \<times> string"

datatype prompt =
    FilterPrompt string "string list"
  | NewAppPrompt string string "string list" "attachment_dict list"
  | ModifyPrompt string string "string list" "attachment_dict list" "(string \<times> string) list"

text \<open>
  Requests to the remote store and to the evaluation sink. The URLs are f-strings over
  the repository name and the path; a request is kept here as those parts.
  \<^item> \<open>ContentsGet repo path\<close>: \<^verbatim>\<open>GET  {API}/repos/{USER}/{repo}/contents/{path}\<close>
  \<^item> \<open>DownloadGet url\<close>: \<^verbatim>\<open>GET  item['download_url']\<close>
  \<^item> \<open>ContentsPut repo path bytes sha\<close>: \<^verbatim>\<open>PUT\<close> on the contents URL; the payload carries
    the bytes (base64 on the wire), the branch \<^verbatim>\<open>main\<close> and, when there is one, the
    version identifier of the existing file
  \<^item> \<open>CreateRepo repo\<close>: \<^verbatim>\<open>POST {API}/user/repos\<close>
  \<^item> \<open>EnablePages repo\<close>: \<^verbatim>\<open>POST {API}/repos/{USER}/{repo}/pages\<close>
  \<^item> \<open>Notify url payload\<close>: \<^verbatim>\<open>POST task.evaluation_url\<close>
\<close>

record eval_payload =
  ep_email :: string
  ep_task :: string
  ep_round :: int
  ep_nonce :: string
  ep_commit_sha :: pyval

datatype request =
    ContentsGet string string
  | DownloadGet string
  | ContentsPut string string string "pyval option"
  | CreateRepo string
  | EnablePages string
  | Notify string eval_payload


text \<open>
  A response: the status code, the body text, and what \<^verbatim>\<open>.json()\<close> gives, as far as
  the code reads it:
  \<^item> \<open>Listing items\<close>: a JSON list of directory entries, each with its \<^verbatim>\<open>type\<close>,
    \<^verbatim>\<open>path\<close> and \<^verbatim>\<open>download_url\<close>;
  \<^item> \<open>Object sha commit\<close>: a JSON object; \<open>sha\<close> is what \<^verbatim>\<open>.get("sha")\<close> returns
    (\<open>PyNone\<close> when the object has no such key), \<open>commit\<close> is what
    \<^verbatim>\<open>["commit"]["sha"]\<close> returns (\<open>None\<close> when that read raises \<^verbatim>\<open>KeyError\<close>);
  \<^item> \<open>NoJson\<close>: a body that is not JSON, on which \<^verbatim>\<open>.json()\<close> raises.
  A read that does not fit the shape raises as Python does on it. (Iterating a JSON
  object gives its keys, and \<^verbatim>\<open>item['type']\<close> raises on a key; an object without any
  key is not among the answers.)
\<close>

record item =
  item_type :: string
  item_path :: string
  download_url :: string

datatype body = Listing "item list" | Object pyval "pyval option" | NoJson

definition json_error :: pyexc where
  "json_error = (ValueError, ''Expecting value: line 1 column 1 (char 0)'')"

record response =
  status_code :: int
  resp_text :: string
  resp_json :: body

text \<open>What has happened so far: each call with its answer, oldest first.\<close>

datatype event =
    ChatCompletion prompt "pyexc + string option"
  | Http request "pyexc + response"

text \<open>
  The outside world answers each call from what has happened so far: \<open>llm\<close> is the
  provider call with the read of \<^verbatim>\<open>response.choices[0].message.content\<close> (an exception,
  or the content, which may be \<^verbatim>\<open>None\<close>), \<open>http\<close> is the session (an exception of the
  transport, or a response). \<open>recursion_depth\<close> is the number of nested calls of
  \<^verbatim>\<open>_get_repo_files\<close> the interpreter's recursion limit leaves.
\<close>

record env =
  llm :: "event list \<Rightarrow> prompt \<Rightarrow> pyexc + string option"
  http :: "event list \<Rightarrow> request \<Rightarrow> pyexc + response"
  recursion_depth :: nat

definition session_request :: "env \<Rightarrow> event list \<Rightarrow> request \<Rightarrow> (pyexc + response) \<times> event list" where
  "session_request E log r = (http E log r, log @ [Http r (http E log r)])"

section \<open>generator.py\<close>

subsection \<open>The response extractor\<close>

text \<open>
  \<^verbatim>\<open>re.search(r'\{.*\}', content, re.DOTALL)\<close>: the leftmost match starts at the first
  \<^verbatim>\<open>{\<close> that has a \<^verbatim>\<open>}\<close> after it, which is the first \<^verbatim>\<open>{\<close> of the text when there
  is any match; the greedy \<^verbatim>\<open>.*\<close> (which also crosses newlines) ends it at the last
  \<^verbatim>\<open>}\<close>.
\<close>

definition brace_span :: "string \<Rightarrow> string option" where
  "brace_span content =
     (case dropWhile (\<lambda>c. c \<noteq> CHR ''{'') content of
        [] \<Rightarrow> None
      | c # rest \<Rightarrow>
          (case dropWhile (\<lambda>c. c \<noteq> CHR ''}'') (rev rest) of
             [] \<Rightarrow> None
           | r \<Rightarrow> Some (c # rev r)))"

definition index_html_fallback :: "string \<Rightarrow> pydict" where
  "index_html_fallback content = [(PyStr ''index.html'', PyStr content)]"

definition error_txt :: "string \<Rightarrow> pydict" where
  "error_txt content =
     [(PyStr ''error.txt'',
       PyStr (''Failed to parse LLM response.'' @ [CHR 0x0A, CHR 0x0A] @ ''Raw Content:'' @ [CHR 0x0A]
              @ content))]"

definition error_html :: "pyexc \<Rightarrow> pydict" where
  "error_html e =
     [(PyStr ''error.html'',
       PyStr (''<html><body><h1>Failed to generate app via LLM</h1><pre>'' @ snd e
              @ ''</pre></body></html>''))]"

text \<open>
  Lines 28 to 50 of \<^verbatim>\<open>_execute_llm_call\<close>, from the content on. The inner handler
  catches \<^verbatim>\<open>ValueError\<close> and \<^verbatim>\<open>SyntaxError\<close> (and the \<^verbatim>\<open>ValueError\<close> the code raises
  itself for a value that is not a dict); any other exception of \<^verbatim>\<open>ast.literal_eval\<close>
  reaches the outer \<^verbatim>\<open>except Exception\<close>.
\<close>

definition parse_response :: "pylib \<Rightarrow> string \<Rightarrow> pydict" where
  "parse_response L content =
     (case brace_span content of
        None \<Rightarrow> index_html_fallback content
      | Some dict_str \<Rightarrow>
          (case literal_eval L dict_str of
             Inr (PyDict files) \<Rightarrow> files
           | Inr _ \<Rightarrow> error_txt content
           | Inl e \<Rightarrow> if is_value_or_syntax_error (fst e) then error_txt content else error_html e))"

text \<open>
  \<^verbatim>\<open>_execute_llm_call\<close>. A content of \<^verbatim>\<open>None\<close> makes \<^verbatim>\<open>re.search\<close> raise
  \<^verbatim>\<open>TypeError\<close>, which the outer handler catches like an exception of the provider.
\<close>

definition execute_llm_call :: "pylib \<Rightarrow> env \<Rightarrow> event list \<Rightarrow> prompt \<Rightarrow> pydict \<times> event list" where
  "execute_llm_call L E log prompt =
     (case llm E log prompt of
        Inl e \<Rightarrow> error_html e
      | Inr None \<Rightarrow> error_html (TypeError, ''expected string or bytes-like object, got '' @ [CHR 0x27] @ ''NoneType'' @ [CHR 0x27])
      | Inr (Some content) \<Rightarrow> parse_response L content,
      log @ [ChatCompletion prompt (llm E log prompt)])"

subsection \<open>The relevance filter\<close>

text \<open>
  The loop of \<^verbatim>\<open>_llm_filter_relevant_files\<close> over \<^verbatim>\<open>response_dict.items()\<close>:
  \<open>Inr (Some xs)\<close> is \<^verbatim>\<open>return relevant_files\<close>, \<open>Inr None\<close> is the end of the loop,
  \<open>Inl e\<close> is an exception that \<^verbatim>\<open>except (ValueError, SyntaxError)\<close> does not catch.
\<close>

fun scan_values :: "pylib \<Rightarrow> pydict \<Rightarrow> pyexc + pyval list option" where
  "scan_values L [] = Inr None"
| "scan_values L ((key, val) # rest) =
     (case literal_eval_obj L val of
        Inr (PyList relevant_files) \<Rightarrow> Inr (Some relevant_files)
      | Inr _ \<Rightarrow> scan_values L rest
      | Inl e \<Rightarrow> if is_value_or_syntax_error (fst e) then scan_values L rest else Inl e)"

definition llm_filter_relevant_files ::
  "pylib \<Rightarrow> env \<Rightarrow> event list \<Rightarrow> string \<Rightarrow> string list \<Rightarrow> (pyexc + pyval list) \<times> event list" where
  "llm_filter_relevant_files L E log brief file_list =
     (case execute_llm_call L E log (FilterPrompt brief file_list) of
        (response_dict, log1) \<Rightarrow>
          (case scan_values L response_dict of
             Inl e \<Rightarrow> (Inl e, log1)
           | Inr (Some relevant_files) \<Rightarrow> (Inr relevant_files, log1)
           | Inr None \<Rightarrow> (Inr (map PyStr file_list), log1)))"

subsection \<open>The generation orchestrator\<close>

definition generate_new_app ::
  "pylib \<Rightarrow> env \<Rightarrow> event list \<Rightarrow> string \<Rightarrow> string \<Rightarrow> string list \<Rightarrow> attachment_dict list
     \<Rightarrow> pydict \<times> event list" where
  "generate_new_app L E log task_name brief checks attachments =
     execute_llm_call L E log (NewAppPrompt task_name brief checks attachments)"

definition modify_existing_app ::
  "pylib \<Rightarrow> env \<Rightarrow> event list \<Rightarrow> string \<Rightarrow> string \<Rightarrow> string list \<Rightarrow> attachment_dict list
     \<Rightarrow> (string \<times> string) list \<Rightarrow> pydict \<times> event list" where
  "modify_existing_app L E log task_name brief checks attachments existing_files =
     execute_llm_call L E log (ModifyPrompt task_name brief checks attachments existing_files)"

text \<open>
  \<^verbatim>\<open>{path: existing_files[path] for path in relevant_file_paths if path in existing_files}\<close>:
  the membership test hashes \<open>path\<close> and raises \<^verbatim>\<open>TypeError\<close> on an unhashable one; the
  keys of \<open>existing_files\<close> are strings, so only a string can be among them.
\<close>

fun context_files ::
  "(string \<times> string) list \<Rightarrow> pyval list \<Rightarrow> (string \<times> string) list \<Rightarrow> pyexc + (string \<times> string) list" where
  "context_files existing_files [] acc = Inr acc"
| "context_files existing_files (path # paths) acc =
     (if \<not> hashable path then Inl (unhashable path)
      else (case path of
              PyStr p \<Rightarrow>
                (case map_of existing_files p of
                   Some content \<Rightarrow> context_files existing_files paths (dict_put p content acc)
                 | None \<Rightarrow> context_files existing_files paths acc)
            | _ \<Rightarrow> context_files existing_files paths acc))"

text \<open>
  \<^verbatim>\<open>generate_app_code\<close>; \<open>existing_files\<close> is \<open>None\<close> when the caller leaves the argument
  out, and \<^verbatim>\<open>if existing_files:\<close> holds for a dict that is not empty.
\<close>

definition generate_app_code ::
  "pylib \<Rightarrow> env \<Rightarrow> event list \<Rightarrow> string \<Rightarrow> string \<Rightarrow> string list \<Rightarrow> attachment_dict list
     \<Rightarrow> (string \<times> string) list option \<Rightarrow> (pyexc + pydict) \<times> event list" where
  "generate_app_code L E log task_name brief checks attachments existing_files =
     (case existing_files of
        Some (f # fs) \<Rightarrow>
          (case llm_filter_relevant_files L E log brief (map fst (f # fs)) of
             (Inl e, log1) \<Rightarrow> (Inl e, log1)
           | (Inr relevant_file_paths, log1) \<Rightarrow>
               (case context_files (f # fs) relevant_file_paths [] of
                  Inl e \<Rightarrow> (Inl e, log1)
                | Inr context \<Rightarrow>
                    (case modify_existing_app L E log1 task_name brief checks attachments context of
                       (files, log2) \<Rightarrow> (Inr files, log2))))
      | _ \<Rightarrow>
          (case generate_new_app L E log task_name brief checks attachments of
             (files, log1) \<Rightarrow> (Inr files, log1)))"

section \<open>handlers.py\<close>

record attachment =
  name :: string
  url :: string

text \<open>
  \<open>attachments\<close> is \<open>None\<close> for a payload with \<^verbatim>\<open>"attachments": null\<close>, which the
  intake model (\<^verbatim>\<open>Optional[List[Attachment]]\<close>) accepts.
\<close>

record task_request =
  email :: string
  secret :: string
  task :: string
  round_number :: int
  nonce :: string
  brief :: string
  checks :: "string list"
  evaluation_url :: string
  attachments :: "attachment list option"

text \<open>
  \<^verbatim>\<open>_get_repo_files\<close>, with the loop over the listing as \<open>get_repo_items\<close>. The first
  argument counts the nested calls still allowed: at none left Python raises
  \<^verbatim>\<open>RecursionError\<close>. A listing response whose JSON is not a list of entries makes
  \<^verbatim>\<open>item['type']\<close> raise.
\<close>

fun get_repo_files ::
    "nat \<Rightarrow> env \<Rightarrow> event list \<Rightarrow> string \<Rightarrow> string \<Rightarrow> (pyexc + (string \<times> string) list) \<times> event list"
  and get_repo_items ::
    "nat \<Rightarrow> env \<Rightarrow> event list \<Rightarrow> string \<Rightarrow> item list \<Rightarrow> (string \<times> string) list
       \<Rightarrow> (pyexc + (string \<times> string) list) \<times> event list" where
  "get_repo_files 0 E log repo_name path =
     (Inl (RecursionError, ''maximum recursion depth exceeded''), log)"
| "get_repo_files (Suc depth) E log repo_name path =
     (case session_request E log (ContentsGet repo_name path) of
        (Inl e, log1) \<Rightarrow> (Inl e, log1)
      | (Inr list_resp, log1) \<Rightarrow>
          if status_code list_resp \<noteq> 200 then
            (Inl (Exception, ''Failed to list repo contents for path '' @ [CHR 0x27] @ path @ [CHR 0x27]
                    @ '': '' @ resp_text list_resp), log1)
          else (case resp_json list_resp of
                  Listing items \<Rightarrow> get_repo_items depth E log1 repo_name items []
                | Object sha commit \<Rightarrow> (Inl (TypeError, ''string indices must be integers''), log1)
                | NoJson \<Rightarrow> (Inl json_error, log1)))"
| "get_repo_items depth E log repo_name [] existing_files = (Inr existing_files, log)"
| "get_repo_items depth E log repo_name (it # items) existing_files =
     (if item_type it = ''file'' then
        (case session_request E log (DownloadGet (download_url it)) of
           (Inl e, log1) \<Rightarrow> (Inl e, log1)
         | (Inr file_resp, log1) \<Rightarrow>
             get_repo_items depth E log1 repo_name items
               (if status_code file_resp = 200
                then dict_put (item_path it) (resp_text file_resp) existing_files
                else existing_files))
      else if item_type it = ''dir'' then
        (case get_repo_files depth E log repo_name (item_path it) of
           (Inl e, log1) \<Rightarrow> (Inl e, log1)
         | (Inr sub, log1) \<Rightarrow>
             get_repo_items depth E log1 repo_name items (dict_update existing_files sub))
      else get_repo_items depth E log repo_name items existing_files)"

text \<open>
  \<^verbatim>\<open>base64.b64encode(content_bytes)\<close> needs bytes: the text encoded, or the bytes of an
  attachment; any other value raises \<^verbatim>\<open>TypeError\<close>.
\<close>

definition content_bytes :: "pyval \<Rightarrow> pyexc + string" where
  "content_bytes content =
     (case content of
        PyStr s \<Rightarrow> Inr s
      | PyBytes b \<Rightarrow> Inr b
      | _ \<Rightarrow> Inl (TypeError, ''a bytes-like object is required, not '' @ [CHR 0x27] @ type_name content @ [CHR 0x27]))"

definition upload_or_update_file ::
  "pylib \<Rightarrow> env \<Rightarrow> event list \<Rightarrow> string \<Rightarrow> pyval \<Rightarrow> pyval \<Rightarrow> (pyexc + pyval) \<times> event list" where
  "upload_or_update_file L E log repo_name path content =
     (case session_request E log (ContentsGet repo_name (format_value L path)) of
        (Inl e, log1) \<Rightarrow> (Inl e, log1)
      | (Inr get_resp, log1) \<Rightarrow>
          (case (if status_code get_resp = 200 then
                   (case resp_json get_resp of
                      Object sha commit \<Rightarrow> Inr sha
                    | Listing items \<Rightarrow>
                        Inl (AttributeError, [CHR 0x27] @ ''list'' @ [CHR 0x27] @ '' object has no attribute ''
                               @ [CHR 0x27] @ ''get'' @ [CHR 0x27])
                    | NoJson \<Rightarrow> Inl json_error)
                 else if status_code get_resp \<noteq> 404 then
                   Inl (Exception, ''Failed to check for file '' @ format_value L path @ '': '' @ resp_text get_resp)
                 else Inr PyNone) of
             Inl e \<Rightarrow> (Inl e, log1)
           | Inr existing_file_sha \<Rightarrow>
               (case content_bytes content of
                  Inl e \<Rightarrow> (Inl e, log1)
                | Inr bytes \<Rightarrow>
                    (case session_request E log1
                            (ContentsPut repo_name (format_value L path) bytes
                               (if truthy existing_file_sha then Some existing_file_sha else None)) of
                       (Inl e, log2) \<Rightarrow> (Inl e, log2)
                     | (Inr put_resp, log2) \<Rightarrow>
                         if status_code put_resp \<noteq> 200 \<and> status_code put_resp \<noteq> 201 then
                           (Inl (Exception, ''Upload failed for '' @ format_value L path @ '': '' @ resp_text put_resp), log2)
                         else (case resp_json put_resp of
                                 Object sha (Some commit_sha) \<Rightarrow> (Inr commit_sha, log2)
                               | Object sha None \<Rightarrow> (Inl (KeyError, ''commit''), log2)
                               | Listing items \<Rightarrow>
                                   (Inl (TypeError, ''list indices must be integers or slices, not str''), log2)
                               | NoJson \<Rightarrow> (Inl json_error, log2))))))"

text \<open>\<^verbatim>\<open>s.split(",")\<close> and the read of element 1.\<close>

fun split_on :: "char \<Rightarrow> string \<Rightarrow> string list" where
  "split_on sep [] = [[]]"
| "split_on sep (c # cs) =
     (if c = sep then [] # split_on sep cs
      else (case split_on sep cs of
              p # ps \<Rightarrow> (c # p) # ps
            | [] \<Rightarrow> [[c]]))"

definition data_part :: "string \<Rightarrow> pyexc + string" where
  "data_part u =
     (case split_on (CHR '','') u of
        a # b # rest \<Rightarrow> Inr b
      | _ \<Rightarrow> Inl (IndexError, ''list index out of range''))"

text \<open>
  \<^verbatim>\<open>for att in task.attachments: files[att.name] = base64.b64decode(att.url.split(",")[1])\<close>
\<close>

fun overlay_attachments :: "pylib \<Rightarrow> attachment list \<Rightarrow> pydict \<Rightarrow> pyexc + pydict" where
  "overlay_attachments L [] files = Inr files"
| "overlay_attachments L (att # atts) files =
     (case data_part (url att) of
        Inl e \<Rightarrow> Inl e
      | Inr data \<Rightarrow>
          (case b64decode L data of
             Inl e \<Rightarrow> Inl e
           | Inr bytes \<Rightarrow> overlay_attachments L atts (dict_put (PyStr (name att)) (PyBytes bytes) files)))"

text \<open>
  \<^verbatim>\<open>for path, content in files.items(): latest_commit_sha = upload_or_update_file(...)\<close>
\<close>

fun upload_all ::
  "pylib \<Rightarrow> env \<Rightarrow> event list \<Rightarrow> string \<Rightarrow> pydict \<Rightarrow> pyval \<Rightarrow> (pyexc + pyval) \<times> event list" where
  "upload_all L E log repo_name [] latest_commit_sha = (Inr latest_commit_sha, log)"
| "upload_all L E log repo_name ((path, content) # rest) latest_commit_sha =
     (case upload_or_update_file L E log repo_name path content of
        (Inl e, log1) \<Rightarrow> (Inl e, log1)
      | (Inr sha, log1) \<Rightarrow> upload_all L E log1 repo_name rest sha)"

text \<open>
  \<^verbatim>\<open>[att.dict() for att in task.attachments]\<close>; iterating \<open>None\<close> attachments raises
  \<^verbatim>\<open>TypeError\<close> (\<open>not_iterable\<close>).
\<close>

definition attachments_for_generator :: "attachment list \<Rightarrow> attachment_dict list" where
  "attachments_for_generator atts = map (\<lambda>att. (name att, url att)) atts"

definition not_iterable :: pyexc where
  "not_iterable = (TypeError, [CHR 0x27] @ ''NoneType'' @ [CHR 0x27] @ '' object is not iterable'')"

text \<open>
  \<^verbatim>\<open>_handle_round_1\<close>. A response of the hosting call with a status other than 201 and
  204 only prints a warning: both branches return the identifier of the last write.
\<close>

definition handle_round_1 :: "pylib \<Rightarrow> env \<Rightarrow> event list \<Rightarrow> task_request \<Rightarrow> (pyexc + pyval) \<times> event list" where
  "handle_round_1 L E log t =
     (case session_request E log (CreateRepo (task t)) of
        (Inl e, log1) \<Rightarrow> (Inl e, log1)
      | (Inr create_resp, log1) \<Rightarrow>
          if status_code create_resp \<noteq> 201 then
            (Inl (Exception, ''Failed to create repo: '' @ resp_text create_resp), log1)
          else
            (case attachments t of
               None \<Rightarrow> (Inl not_iterable, log1)
             | Some atts \<Rightarrow>
                 (case generate_app_code L E log1 (task t) (brief t) (checks t)
                         (attachments_for_generator atts) None of
                    (Inl e, log2) \<Rightarrow> (Inl e, log2)
                  | (Inr files, log2) \<Rightarrow>
                      (case overlay_attachments L atts files of
                         Inl e \<Rightarrow> (Inl e, log2)
                       | Inr files_to_upload \<Rightarrow>
                           (case upload_all L E log2 (task t) files_to_upload PyNone of
                              (Inl e, log3) \<Rightarrow> (Inl e, log3)
                            | (Inr latest_commit_sha, log3) \<Rightarrow>
                                (case session_request E log3 (EnablePages (task t)) of
                                   (Inl e, log4) \<Rightarrow> (Inl e, log4)
                                 | (Inr pages_resp, log4) \<Rightarrow>
                                     if status_code pages_resp \<noteq> 201 \<and> status_code pages_resp \<noteq> 204
                                     then (Inr latest_commit_sha, log4)
                                     else (Inr latest_commit_sha, log4)))))))"

text \<open>\<^verbatim>\<open>_handle_round_2\<close>; \<^verbatim>\<open>if not existing_files\<close> holds for the empty dict.\<close>

definition handle_round_2 :: "pylib \<Rightarrow> env \<Rightarrow> event list \<Rightarrow> task_request \<Rightarrow> (pyexc + pyval) \<times> event list" where
  "handle_round_2 L E log t =
     (case get_repo_files (recursion_depth E) E log (task t) [] of
        (Inl e, log1) \<Rightarrow> (Inl e, log1)
      | (Inr existing_files, log1) \<Rightarrow>
          if existing_files = [] then
            (Inl (Exception, ''Could not retrieve existing files to modify.''), log1)
          else
            (case attachments t of
               None \<Rightarrow> (Inl not_iterable, log1)
             | Some atts \<Rightarrow>
                 (case generate_app_code L E log1 (task t) (brief t) (checks t)
                         (attachments_for_generator atts) (Some existing_files) of
                    (Inl e, log2) \<Rightarrow> (Inl e, log2)
                  | (Inr files, log2) \<Rightarrow>
                      (case overlay_attachments L atts files of
                         Inl e \<Rightarrow> (Inl e, log2)
                       | Inr files_to_update \<Rightarrow> upload_all L E log2 (task t) files_to_update PyNone))))"

text \<open>
  \<^verbatim>\<open>handle_task\<close>. The payload of the notification also carries \<^verbatim>\<open>repo_url\<close> and
  \<^verbatim>\<open>pages_url\<close>, which are f-strings over the task name.
\<close>

definition eval_payload_of :: "task_request \<Rightarrow> pyval \<Rightarrow> eval_payload" where
  "eval_payload_of t latest_commit_sha =
     \<lparr> ep_email = email t, ep_task = task t, ep_round = round_number t, ep_nonce = nonce t,
       ep_commit_sha = latest_commit_sha \<rparr>"

definition handle_task :: "pylib \<Rightarrow> env \<Rightarrow> event list \<Rightarrow> task_request \<Rightarrow> (pyexc + unit) \<times> event list" where
  "handle_task L E log t =
     (case (if round_number t = 1 then handle_round_1 L E log t
            else if round_number t > 1 then handle_round_2 L E log t
            else (Inl (Exception, ''Unknown round: '' @ str_of L (PyInt (round_number t))), log)) of
        (Inl e, log1) \<Rightarrow> (Inl e, log1)
      | (Inr latest_commit_sha, log1) \<Rightarrow>
          if \<not> truthy latest_commit_sha then
            (Inl (Exception, ''Failed to retrieve a valid commit SHA.''), log1)
          else
            (case session_request E log1 (Notify (evaluation_url t) (eval_payload_of t latest_commit_sha)) of
               (Inl e, log2) \<Rightarrow> (Inl e, log2)
             | (Inr eval_resp, log2) \<Rightarrow>
                 if status_code eval_resp \<noteq> 200 then
                   (Inl (Exception, ''Evaluation notification failed: '' @ resp_text eval_resp), log2)
                 else (Inr (), log2)))"

section \<open>main.py\<close>

text \<open>
  \<^verbatim>\<open>receive_task\<close>: \<open>expected_secret\<close> is \<^verbatim>\<open>os.getenv("STUDENT_SECRET")\<close>, \<open>None\<close> when
  the variable is not set. \<^verbatim>\<open>await asyncio.to_thread(handle_task, req)\<close> runs the task on
  a worker thread and resumes the handler with its result or its exception; the model
  is that call and what the handler does next.
\<close>

datatype http_result = Ok string string | HTTPException int string

definition receive_task ::
  "pylib \<Rightarrow> env \<Rightarrow> event list \<Rightarrow> string option \<Rightarrow> task_request \<Rightarrow> http_result \<times> event list" where
  "receive_task L E log expected_secret req =
     (if Some (secret req) \<noteq> expected_secret then (HTTPException 403 ''Invalid secret'', log)
      else (case handle_task L E log req of
              (Inr u, log1) \<Rightarrow> (Ok ''ok'' ''Task received and being processed.'', log1)
            | (Inl e, log1) \<Rightarrow> (HTTPException 500 (snd e), log1)))"

section \<open>The library functions on a fragment\<close>

text \<open>
  The theorems about the program hold for every \<open>pylib\<close>. To run the program on
  concrete inputs, this section models the three library functions on a fragment of
  their inputs, following CPython 3.11. Each model answers \<open>None\<close> outside its
  fragment; \<open>py_lib\<close> then answers with an exception that is the model's own choice, so a
  run through \<open>py_lib\<close> shows what Python does only where the models answer \<open>Some\<close>.
\<close>

subsection \<open>ast.literal_eval on strings, lists and brace displays\<close>

text \<open>
  The fragment: string literals in single or double quotes without backslashes, control
  characters or triple quotes; decimal integers of at most nine digits without a sign, an
  underscore or a leading zero; list displays; dict and set displays; commas, colons and
  spaces between them. A character outside this alphabet, a subscript (an expression
  followed by \<^verbatim>\<open>[\<close>) and a tuple (a comma outside every display) are outside the fragment.
\<close>

datatype token =
  TStr string | TInt nat | TLBrace | TRBrace | TLBrack | TRBrack | TComma | TColon | TBad | TOut

text \<open>\<open>TBad\<close> is an unterminated string literal, \<open>TOut\<close> a character outside the fragment.\<close>

definition string_char :: "char \<Rightarrow> bool" where
  "string_char c = (32 \<le> (of_char c :: nat) \<and> (of_char c :: nat) \<noteq> 127 \<and> c \<noteq> CHR 0x5C)"

fun index_of :: "'a \<Rightarrow> 'a list \<Rightarrow> nat option" where
  "index_of x [] = None"
| "index_of x (y # ys) = (if x = y then Some 0 else map_option Suc (index_of x ys))"

definition digit_of :: "char \<Rightarrow> nat option" where
  "digit_of c = index_of c ''0123456789''"

text \<open>
  \<open>lex_int n room cs\<close> reads the digits that follow the value \<open>n\<close> read so far, with
  \<open>room\<close> digits left; the literal ends before the first character that is not a digit.
\<close>

fun lex :: "string \<Rightarrow> token list"
  and lex_string :: "char \<Rightarrow> string \<Rightarrow> string \<Rightarrow> token list"
  and lex_int :: "nat \<Rightarrow> nat \<Rightarrow> string \<Rightarrow> token list" where
  "lex [] = []"
| "lex (c # cs) =
     (if c = CHR '' '' then lex cs
      else if c = CHR ''{'' then TLBrace # lex cs
      else if c = CHR ''}'' then TRBrace # lex cs
      else if c = CHR ''['' then TLBrack # lex cs
      else if c = CHR '']'' then TRBrack # lex cs
      else if c = CHR '','' then TComma # lex cs
      else if c = CHR '':'' then TColon # lex cs
      else if c = CHR 0x27 \<or> c = CHR 0x22 then
        (if take 2 cs = [c, c] then [TOut] else lex_string c [] cs)
      else if c = CHR ''0'' then
        (case cs of
           [] \<Rightarrow> [TInt 0]
         | d # ds \<Rightarrow> if digit_of d = None then TInt 0 # lex cs else [TOut])
      else (case digit_of c of
              Some n \<Rightarrow> lex_int n 8 cs
            | None \<Rightarrow> [TOut]))"
| "lex_string q acc [] = [TBad]"
| "lex_string q acc (c # cs) =
     (if c = q then TStr (rev acc) # lex cs
      else if string_char c then lex_string q (c # acc) cs
      else [TOut])"
| "lex_int n room [] = [TInt n]"
| "lex_int n room (c # cs) =
     (case digit_of c of
        None \<Rightarrow> TInt n # lex (c # cs)
      | Some d \<Rightarrow> (case room of 0 \<Rightarrow> [TOut] | Suc fewer \<Rightarrow> lex_int (10 * n + d) fewer cs))"

text \<open>Syntax trees as \<^verbatim>\<open>ast.parse\<close> builds them: a \<^verbatim>\<open>Dict\<close> node holds its keys and its values.\<close>

datatype ast = AStr string | AInt nat | AList "ast list" | ASet "ast list" | ADict "ast list" "ast list"

text \<open>
  An open display, with the expression read last when no comma, colon or closing bracket
  has followed it yet (\<open>None\<close>: an expression or the closing bracket comes next).
  \<^item> \<open>FList items last\<close>: a list display and its elements so far, newest first;
  \<^item> \<open>FOpen last\<close>: a brace display before its first comma or colon;
  \<^item> \<open>FSet items last\<close>: a set display; \<open>FKey pairs last\<close>: a dict display reading a key;
  \<^item> \<open>FVal pairs key last\<close>: a dict display reading the value of \<open>key\<close>.
\<close>

datatype frame =
    FList "ast list" "ast option"
  | FOpen "ast option"
  | FSet "ast list" "ast option"
  | FKey "(ast \<times> ast) list" "ast option"
  | FVal "(ast \<times> ast) list" ast "ast option"

datatype pstate = Run "frame list" "ast option" | SynErr | Outside

fun last_expr :: "frame list \<Rightarrow> ast option \<Rightarrow> ast option" where
  "last_expr [] outer = outer"
| "last_expr (FList items l # st) outer = l"
| "last_expr (FOpen l # st) outer = l"
| "last_expr (FSet items l # st) outer = l"
| "last_expr (FKey pairs l # st) outer = l"
| "last_expr (FVal pairs k l # st) outer = l"

fun set_last :: "ast \<Rightarrow> frame list \<Rightarrow> ast option \<Rightarrow> pstate" where
  "set_last v [] outer = Run [] (Some v)"
| "set_last v (FList items l # st) outer = Run (FList items (Some v) # st) outer"
| "set_last v (FOpen l # st) outer = Run (FOpen (Some v) # st) outer"
| "set_last v (FSet items l # st) outer = Run (FSet items (Some v) # st) outer"
| "set_last v (FKey pairs l # st) outer = Run (FKey pairs (Some v) # st) outer"
| "set_last v (FVal pairs k l # st) outer = Run (FVal pairs k (Some v) # st) outer"

text \<open>An expression ends: two expressions in a row are a syntax error.\<close>

definition deliver :: "ast \<Rightarrow> frame list \<Rightarrow> ast option \<Rightarrow> pstate" where
  "deliver v st outer = (case last_expr st outer of None \<Rightarrow> set_last v st outer | Some u \<Rightarrow> SynErr)"

fun snoc_opt :: "'a option \<Rightarrow> 'a list \<Rightarrow> 'a list" where
  "snoc_opt None items = rev items"
| "snoc_opt (Some v) items = rev (v # items)"

fun parse_token :: "token \<Rightarrow> frame list \<Rightarrow> ast option \<Rightarrow> pstate" where
  "parse_token (TStr s) st outer =
     (case last_expr st outer of
        None \<Rightarrow> set_last (AStr s) st outer
      | Some (AStr r) \<Rightarrow> set_last (AStr (r @ s)) st outer
      | Some _ \<Rightarrow> SynErr)"
| "parse_token (TInt n) st outer =
     (case last_expr st outer of None \<Rightarrow> set_last (AInt n) st outer | Some u \<Rightarrow> SynErr)"
| "parse_token TLBrack st outer =
     (case last_expr st outer of None \<Rightarrow> Run (FList [] None # st) outer | Some u \<Rightarrow> Outside)"
| "parse_token TLBrace st outer =
     (case last_expr st outer of None \<Rightarrow> Run (FOpen None # st) outer | Some u \<Rightarrow> SynErr)"
| "parse_token TRBrack (FList items l # st) outer = deliver (AList (snoc_opt l items)) st outer"
| "parse_token TRBrack st outer = SynErr"
| "parse_token TRBrace (FOpen None # st) outer = deliver (ADict [] []) st outer"
| "parse_token TRBrace (FOpen (Some v) # st) outer = deliver (ASet [v]) st outer"
| "parse_token TRBrace (FSet items l # st) outer = deliver (ASet (snoc_opt l items)) st outer"
| "parse_token TRBrace (FKey pairs None # st) outer = deliver (ADict (map fst (rev pairs)) (map snd (rev pairs))) st outer"
| "parse_token TRBrace (FVal pairs k (Some v) # st) outer = deliver (ADict (map fst (rev ((k, v) # pairs))) (map snd (rev ((k, v) # pairs)))) st outer"
| "parse_token TRBrace st outer = SynErr"
| "parse_token TComma [] (Some v) = Outside"
| "parse_token TComma (FList items (Some v) # st) outer = Run (FList (v # items) None # st) outer"
| "parse_token TComma (FOpen (Some v) # st) outer = Run (FSet [v] None # st) outer"
| "parse_token TComma (FSet items (Some v) # st) outer = Run (FSet (v # items) None # st) outer"
| "parse_token TComma (FVal pairs k (Some v) # st) outer = Run (FKey ((k, v) # pairs) None # st) outer"
| "parse_token TComma st outer = SynErr"
| "parse_token TColon (FOpen (Some k) # st) outer = Run (FVal [] k None # st) outer"
| "parse_token TColon (FKey pairs (Some k) # st) outer = Run (FVal pairs k None # st) outer"
| "parse_token TColon st outer = SynErr"
| "parse_token TBad st outer = SynErr"
| "parse_token TOut st outer = Outside"

fun parse_tokens :: "token list \<Rightarrow> pstate \<Rightarrow> pstate" where
  "parse_tokens [] p = p"
| "parse_tokens (t # ts) (Run st outer) = parse_tokens ts (parse_token t st outer)"
| "parse_tokens (t # ts) SynErr = SynErr"
| "parse_tokens (t # ts) Outside = Outside"

text \<open>
  \<^verbatim>\<open>_convert\<close> of \<^verbatim>\<open>ast.literal_eval\<close>: \<^verbatim>\<open>set(map(_convert, elts))\<close> and
  \<^verbatim>\<open>dict(zip(map(_convert, keys), map(_convert, values)))\<close> convert and insert element by
  element, so the first element that cannot be converted or hashed raises.
\<close>

function (sequential) convert :: "ast \<Rightarrow> pyexc + pyval"
  and convert_elts :: "ast list \<Rightarrow> pyexc + pyval list"
  and convert_set :: "ast list \<Rightarrow> pyval list \<Rightarrow> pyexc + pyval list"
  and convert_items :: "ast list \<Rightarrow> ast list \<Rightarrow> pydict \<Rightarrow> pyexc + pydict" where
  "convert (AStr s) = Inr (PyStr s)"
| "convert (AInt n) = Inr (PyInt (int n))"
| "convert (AList xs) = (case convert_elts xs of Inl e \<Rightarrow> Inl e | Inr vs \<Rightarrow> Inr (PyList vs))"
| "convert (ASet xs) = (case convert_set xs [] of Inl e \<Rightarrow> Inl e | Inr vs \<Rightarrow> Inr (PySet vs))"
| "convert (ADict ks vs) = (case convert_items ks vs [] of Inl e \<Rightarrow> Inl e | Inr d \<Rightarrow> Inr (PyDict d))"
| "convert_elts [] = Inr []"
| "convert_elts (x # xs) =
     (case convert x of
        Inl e \<Rightarrow> Inl e
      | Inr v \<Rightarrow> (case convert_elts xs of Inl e \<Rightarrow> Inl e | Inr vs \<Rightarrow> Inr (v # vs)))"
| "convert_set [] acc = Inr acc"
| "convert_set (x # xs) acc =
     (case convert x of
        Inl e \<Rightarrow> Inl e
      | Inr v \<Rightarrow>
          if \<not> hashable v then Inl (unhashable v)
          else convert_set xs (if v \<in> set acc then acc else acc @ [v]))"
| "convert_items (k # ks) (v # vs) acc =
     (case convert k of
        Inl e \<Rightarrow> Inl e
      | Inr key \<Rightarrow>
          (case convert v of
             Inl e \<Rightarrow> Inl e
           | Inr val \<Rightarrow>
               if \<not> hashable key then Inl (unhashable key)
               else convert_items ks vs (dict_put key val acc)))"
| "convert_items [] vs acc = Inr acc"
| "convert_items ks [] acc = Inr acc"
  by pat_completeness auto
termination
  by (relation "measure (\<lambda>x. case x of
        Inl (Inl a) \<Rightarrow> size a
      | Inl (Inr xs) \<Rightarrow> size_list size xs
      | Inr (Inl (xs, acc)) \<Rightarrow> size_list size xs
      | Inr (Inr (ks, vs, acc)) \<Rightarrow> size_list size ks + size_list size vs)") auto

text \<open>
  The message of a \<^verbatim>\<open>SyntaxError\<close> is not modelled (the program never reads it): it
  is always \<^verbatim>\<open>invalid syntax\<close> here.
\<close>

definition py_literal_eval :: "string \<Rightarrow> (pyexc + pyval) option" where
  "py_literal_eval s =
     (case parse_tokens (lex s) (Run [] None) of
        Outside \<Rightarrow> None
      | SynErr \<Rightarrow> Some (Inl (SyntaxError, ''invalid syntax''))
      | Run [] (Some v) \<Rightarrow> Some (convert v)
      | Run st outer \<Rightarrow> Some (Inl (SyntaxError, ''invalid syntax'')))"

subsection \<open>base64.b64decode on padded standard text\<close>

text \<open>
  The fragment: groups of four characters of the standard alphabet, the last group
  possibly ending in one or two \<^verbatim>\<open>=\<close>. (On other text Python skips characters,
  stops at padding or raises \<^verbatim>\<open>binascii.Error\<close>.)
\<close>

definition b64_alphabet :: string where
  "b64_alphabet = ''ABCDEFGHIJKLMNOPQRSTUVWXYZabcdefghijklmnopqrstuvwxyz0123456789+/''"

definition sextet :: "char \<Rightarrow> nat option" where
  "sextet c = index_of c b64_alphabet"

definition byte :: "nat \<Rightarrow> char" where
  "byte n = char_of n"

fun b64_quads :: "string \<Rightarrow> string option" where
  "b64_quads [] = Some []"
| "b64_quads [a, b, c, d] =
     (case (sextet a, sextet b) of
        (Some i, Some j) \<Rightarrow>
          if c = CHR ''='' \<and> d = CHR ''='' then Some [byte (i * 4 + j div 16)]
          else (case sextet c of
                  None \<Rightarrow> None
                | Some k \<Rightarrow>
                    if d = CHR ''='' then Some [byte (i * 4 + j div 16), byte ((j mod 16) * 16 + k div 4)]
                    else (case sextet d of
                            None \<Rightarrow> None
                          | Some l \<Rightarrow>
                              Some [byte (i * 4 + j div 16), byte ((j mod 16) * 16 + k div 4),
                                    byte ((k mod 4) * 64 + l)]))
      | _ \<Rightarrow> None)"
| "b64_quads (a # b # c # d # rest) =
     (case (sextet a, sextet b, sextet c, sextet d) of
        (Some i, Some j, Some k, Some l) \<Rightarrow>
          map_option
            (\<lambda>out. [byte (i * 4 + j div 16), byte ((j mod 16) * 16 + k div 4),
                     byte ((k mod 4) * 64 + l)] @ out)
            (b64_quads rest)
      | _ \<Rightarrow> None)"
| "b64_quads _ = None"

definition py_b64decode :: "string \<Rightarrow> (pyexc + string) option" where
  "py_b64decode s = map_option Inr (b64_quads s)"

subsection \<open>str() on scalars\<close>

function digits :: "nat \<Rightarrow> string" where
  "digits n = (if n < 10 then [char_of (48 + n)] else digits (n div 10) @ [char_of (48 + n mod 10)])"
  by pat_completeness auto
termination
  by (relation "measure id") auto

fun py_str :: "pyval \<Rightarrow> string option" where
  "py_str PyNone = Some ''None''"
| "py_str (PyBool b) = Some (if b then ''True'' else ''False'')"
| "py_str (PyInt i) = Some (if i < 0 then CHR ''-'' # digits (nat (- i)) else digits (nat i))"
| "py_str (PyStr s) = Some s"
| "py_str (PyOpaque s) = Some s"
| "py_str _ = None"

subsection \<open>The three together\<close>

definition py_lib :: pylib where
  "py_lib =
     \<lparr> literal_eval = (\<lambda>s. case py_literal_eval s of Some r \<Rightarrow> r | None \<Rightarrow> Inl (SyntaxError, ''not modelled'')),
       b64decode = (\<lambda>s. case py_b64decode s of Some r \<Rightarrow> r | None \<Rightarrow> Inl (BinasciiError, ''not modelled'')),
       str_of = (\<lambda>v. case py_str v of Some s \<Rightarrow> s | None \<Rightarrow> ''not modelled'') \<rparr>"

section \<open>Example worlds\<close>

text \<open>
  A provider that answers the relevance query with \<open>relevance\<close> and the two generation
  prompts with \<open>files\<close>.
\<close>

definition example_llm :: "string \<Rightarrow> string \<Rightarrow> event list \<Rightarrow> prompt \<Rightarrow> pyexc + string option" where
  "example_llm relevance files log p =
     Inr (Some (case p of FilterPrompt b fs \<Rightarrow> relevance | _ \<Rightarrow> files))"

text \<open>
  A remote store and an evaluation sink: the root of the repository lists \<open>listing\<close>, no
  other path exists yet, every download answers the same text, every write is accepted
  with the same identifier, the hosting call answers \<open>pages_status\<close> and the sink
  \<open>sink_status\<close>. The interpreter leaves room for three nested calls of
  \<^verbatim>\<open>_get_repo_files\<close>.
\<close>

definition plain_response :: "int \<Rightarrow> string \<Rightarrow> body \<Rightarrow> response" where
  "plain_response code txt js = \<lparr> status_code = code, resp_text = txt, resp_json = js \<rparr>"

definition example_http :: "item list \<Rightarrow> int \<Rightarrow> int \<Rightarrow> event list \<Rightarrow> request \<Rightarrow> pyexc + response" where
  "example_http listing pages_status sink_status log r =
     Inr (case r of
            ContentsGet repo path \<Rightarrow>
              if path = [] then plain_response 200 [] (Listing listing)
              else plain_response 404 ''Not Found'' NoJson
          | DownloadGet u \<Rightarrow> plain_response 200 ''<h1>Old</h1>'' NoJson
          | ContentsPut repo path bytes sha \<Rightarrow> plain_response 201 [] (Object PyNone (Some (PyStr ''c0ffee'')))
          | CreateRepo repo \<Rightarrow> plain_response 201 [] NoJson
          | EnablePages repo \<Rightarrow> plain_response pages_status [] NoJson
          | Notify u payload \<Rightarrow>
              plain_response sink_status (if sink_status = 200 then ''ok'' else ''sink says no'') NoJson)"

definition example_env :: "string \<Rightarrow> string \<Rightarrow> item list \<Rightarrow> int \<Rightarrow> int \<Rightarrow> env" where
  "example_env relevance files listing pages_status sink_status =
     \<lparr> llm = example_llm relevance files,
       http = example_http listing pages_status sink_status,
       recursion_depth = 3 \<rparr>"

definition example_task :: "int \<Rightarrow> attachment list \<Rightarrow> task_request" where
  "example_task r atts =
     \<lparr> email = ''a@example.org'', secret = ''s3cret'', task = ''demo-app'', round_number = r,
       nonce = ''n-1'', brief = ''a todo list'', checks = [''has an add button''],
       evaluation_url = ''https://sink.example.org/notify'', attachments = Some atts \<rparr>"

definition example_prompt :: prompt where
  "example_prompt = NewAppPrompt ''demo-app'' ''a todo list'' [''has an add button''] []"

text \<open>A repository of three files, and an attachment whose data is the base64 of \<^verbatim>\<open>hi\<close>.\<close>

definition example_listing :: "item list" where
  "example_listing =
     [\<lparr> item_type = ''file'', item_path = ''index.html'', download_url = ''https://raw.example.org/index.html'' \<rparr>,
      \<lparr> item_type = ''file'', item_path = ''style.css'', download_url = ''https://raw.example.org/style.css'' \<rparr>,
      \<lparr> item_type = ''file'', item_path = ''README.md'', download_url = ''https://raw.example.org/README.md'' \<rparr>]"

definition example_attachment :: attachment where
  "example_attachment = \<lparr> name = ''style.css'', url = ''data:text/css;base64,aGk='' \<rparr>"

section \<open>Reading a run\<close>

text \<open>
  What the theorems say about a run is read off the calls it has added to the log.
\<close>

datatype kind = ModelCall | Read | Write | Create | Hosting | Notification

fun kind_of :: "event \<Rightarrow> kind" where
  "kind_of (ChatCompletion p a) = ModelCall"
| "kind_of (Http (ContentsGet repo path) a) = Read"
| "kind_of (Http (DownloadGet u) a) = Read"
| "kind_of (Http (ContentsPut repo path bytes sha) a) = Write"
| "kind_of (Http (CreateRepo repo) a) = Create"
| "kind_of (Http (EnablePages repo) a) = Hosting"
| "kind_of (Http (Notify u payload) a) = Notification"

text \<open>The write requests of a run, in order: repository, path and bytes.\<close>

fun puts :: "event list \<Rightarrow> (string \<times> string \<times> string) list" where
  "puts [] = []"
| "puts (Http (ContentsPut repo path bytes sha) a # evs) = (repo, path, bytes) # puts evs"
| "puts (ev # evs) = puts evs"

text \<open>
  A write that produced a valid identifier: the store answered 200 or 201 with an
  identifier that Python takes as true.
\<close>

fun valid_write :: "event \<Rightarrow> bool" where
  "valid_write (Http (ContentsPut repo path bytes sha) (Inr resp)) =
     ((status_code resp = 200 \<or> status_code resp = 201)
      \<and> (case resp_json resp of Object s (Some commit_sha) \<Rightarrow> truthy commit_sha | _ \<Rightarrow> False))"
| "valid_write ev = False"



text \<open>
  The attachment-augmented generated file set of a modification round, as
  \<^verbatim>\<open>_handle_round_2\<close> builds it before its first write (the snapshot, the generation,
  the overlay); \<open>None\<close> when the round stops before that.
\<close>

definition round_2_file_set :: "pylib \<Rightarrow> env \<Rightarrow> event list \<Rightarrow> task_request \<Rightarrow> pydict option" where
  "round_2_file_set L E log t =
     (case get_repo_files (recursion_depth E) E log (task t) [] of
        (Inr (f # fs), log1) \<Rightarrow>
          (case attachments t of
             None \<Rightarrow> None
           | Some atts \<Rightarrow>
               (case generate_app_code L E log1 (task t) (brief t) (checks t)
                       (attachments_for_generator atts) (Some (f # fs)) of
                  (Inr files, log2) \<Rightarrow>
                    (case overlay_attachments L atts files of
                       Inr files_to_update \<Rightarrow> Some files_to_update
                     | Inl e \<Rightarrow> None)
                | (Inl e, log2) \<Rightarrow> None))
      | _ \<Rightarrow> None)"

text \<open>The round that \<^verbatim>\<open>handle_task\<close> runs for the task's round number, and its result.\<close>

definition round_of :: "pylib \<Rightarrow> env \<Rightarrow> event list \<Rightarrow> task_request \<Rightarrow> (pyexc + pyval) \<times> event list" where
  "round_of L E log t =
     (if round_number t = 1 then handle_round_1 L E log t
      else if round_number t > 1 then handle_round_2 L E log t
      else (Inl (Exception, ''Unknown round: '' @ str_of L (PyInt (round_number t))), log))"

text \<open>
  The identifier of the last write: what the store answered as \<^verbatim>\<open>["commit"]["sha"]\<close> to
  the last write request it accepted among the events, and \<open>latest\<close> when it accepted
  none.
\<close>

fun latest_identifier :: "pyval \<Rightarrow> event list \<Rightarrow> pyval" where
  "latest_identifier latest [] = latest"
| "latest_identifier latest (Http (ContentsPut repo path bytes sha) (Inr resp) # evs) =
     latest_identifier
       (if status_code resp = 200 \<or> status_code resp = 201 then
          (case resp_json resp of Object s (Some commit_sha) \<Rightarrow> commit_sha | _ \<Rightarrow> latest)
        else latest)
       evs"
| "latest_identifier latest (ev # evs) = latest_identifier latest evs"

text \<open>
  The generated file set of a task, as its round has it when the overlay of the
  attachments starts (after the creation of the repository or the snapshot, and the
  generation): the attachments, the set and the log at that point; \<open>None\<close> when the round
  stops before.
\<close>

definition generated_file_set ::
  "pylib \<Rightarrow> env \<Rightarrow> event list \<Rightarrow> task_request \<Rightarrow> (attachment list \<times> pydict \<times> event list) option" where
  "generated_file_set L E log t =
     (if round_number t = 1 then
        (case session_request E log (CreateRepo (task t)) of
           (Inl e, log1) \<Rightarrow> None
         | (Inr create_resp, log1) \<Rightarrow>
             if status_code create_resp \<noteq> 201 then None
             else
               (case attachments t of
                  None \<Rightarrow> None
                | Some atts \<Rightarrow>
                    (case generate_app_code L E log1 (task t) (brief t) (checks t)
                            (attachments_for_generator atts) None of
                       (Inl e, log2) \<Rightarrow> None
                     | (Inr files, log2) \<Rightarrow> Some (atts, files, log2))))
      else if round_number t > 1 then
        (case get_repo_files (recursion_depth E) E log (task t) [] of
           (Inr (f # fs), log1) \<Rightarrow>
             (case attachments t of
                None \<Rightarrow> None
              | Some atts \<Rightarrow>
                  (case generate_app_code L E log1 (task t) (brief t) (checks t)
                          (attachments_for_generator atts) (Some (f # fs)) of
                     (Inl e, log2) \<Rightarrow> None
                   | (Inr files, log2) \<Rightarrow> Some (atts, files, log2)))
         | _ \<Rightarrow> None)
      else None)"

section \<open>The greedy span\<close>

text \<open>
  The span of a text that has a \<^verbatim>\<open>{\<close> with a \<^verbatim>\<open>}\<close> after it: from the first
  \<^verbatim>\<open>{\<close> to the last \<^verbatim>\<open>}\<close>.
\<close>

lemma brace_span_greedy:
  assumes "CHR ''{'' \<notin> set pre" and "CHR ''}'' \<notin> set post"
  shows "brace_span (pre @ CHR ''{'' # mid @ CHR ''}'' # post) = Some (CHR ''{'' # mid @ [CHR ''}''])"
proof -
  let ?rest = "mid @ CHR ''}'' # post"
  have front: "dropWhile (\<lambda>c. c \<noteq> CHR ''{'') (pre @ CHR ''{'' # ?rest) = CHR ''{'' # ?rest"
    using assms(1) by (subst dropWhile_append2) auto
  have "dropWhile (\<lambda>c. c \<noteq> CHR ''}'') (rev post @ CHR ''}'' # rev mid) = dropWhile (\<lambda>c. c \<noteq> CHR ''}'') (CHR ''}'' # rev mid)"
    using assms(2) by (intro dropWhile_append2) auto
  then have rear: "dropWhile (\<lambda>c. c \<noteq> CHR ''}'') (rev post @ CHR ''}'' # rev mid) = CHR ''}'' # rev mid"
    by simp
  show ?thesis
    unfolding brace_span_def front by (simp add: rear)
qed

text \<open>Conversely, a span that is found lies between a prefix without \<^verbatim>\<open>{\<close> and a suffix without \<^verbatim>\<open>}\<close>.\<close>

lemma brace_span_SomeD:
  assumes "brace_span content = Some span"
  shows "\<exists>pre mid post. content = pre @ span @ post \<and> span = CHR ''{'' # mid @ [CHR ''}'']
           \<and> CHR ''{'' \<notin> set pre \<and> CHR ''}'' \<notin> set post"
proof -
  define P where "P = (\<lambda>c. c \<noteq> CHR ''{'')"
  define Q where "Q = (\<lambda>c. c \<noteq> CHR ''}'')"
  obtain c rest where dw: "dropWhile P content = c # rest"
    using assms unfolding brace_span_def P_def by (cases "dropWhile (\<lambda>c. c \<noteq> CHR ''{'') content") auto
  obtain d r' where r': "dropWhile Q (rev rest) = d # r'" and sp: "span = c # rev (d # r')"
    using assms dw unfolding brace_span_def P_def Q_def
    by (cases "dropWhile (\<lambda>c. c \<noteq> CHR ''}'') (rev rest)") auto
  have c: "c = CHR ''{''" using dw by (simp add: dropWhile_eq_Cons_conv P_def)
  have d: "d = CHR ''}''" using r' by (simp add: dropWhile_eq_Cons_conv Q_def)
  have content: "content = takeWhile P content @ c # rest"
    using dw by (simp add: dropWhile_eq_Cons_conv)
  have "rev rest = takeWhile Q (rev rest) @ d # r'"
    using r' by (simp add: dropWhile_eq_Cons_conv)
  then have "rev (rev rest) = rev (takeWhile Q (rev rest) @ d # r')" by simp
  then have rest: "rest = rev r' @ d # rev (takeWhile Q (rev rest))" by simp
  show ?thesis
  proof (intro exI conjI)
    show "content = takeWhile P content @ span @ rev (takeWhile Q (rev rest))"
      using content rest sp by simp
    show "span = CHR ''{'' # rev r' @ [CHR ''}'']" using sp c d by simp
    show "CHR ''{'' \<notin> set (takeWhile P content)" by (auto simp: P_def dest: set_takeWhileD)
    show "CHR ''}'' \<notin> set (rev (takeWhile Q (rev rest)))" by (auto simp: Q_def dest: set_takeWhileD)
  qed
qed

section \<open>Evaluating the example worlds\<close>

lemma py_lib_simps:
  "literal_eval py_lib s = (case py_literal_eval s of Some r \<Rightarrow> r | None \<Rightarrow> Inl (SyntaxError, ''not modelled''))"
  "b64decode py_lib s = (case py_b64decode s of Some r \<Rightarrow> r | None \<Rightarrow> Inl (BinasciiError, ''not modelled''))"
  "str_of py_lib v = (case py_str v of Some s \<Rightarrow> s | None \<Rightarrow> ''not modelled'')"
  by (simp_all add: py_lib_def)

lemma example_env_simps:
  "llm (example_env relevance files listing ps ss) = example_llm relevance files"
  "http (example_env relevance files listing ps ss) = example_http listing ps ss"
  "recursion_depth (example_env relevance files listing ps ss) = 3"
  by (simp_all add: example_env_def)

lemmas literal_eval_unfold = py_literal_eval_def deliver_def string_char_def unhashable_def digit_of_def

lemmas run_simps = handle_task_def handle_round_1_def handle_round_2_def session_request_def
  generate_app_code_def generate_new_app_def modify_existing_app_def llm_filter_relevant_files_def
  execute_llm_call_def parse_response_def brace_span_def index_html_fallback_def error_txt_def error_html_def
  literal_eval_obj_def upload_or_update_file_def content_bytes_def format_value_def
  attachments_for_generator_def eval_payload_of_def data_part_def
  example_env_simps example_llm_def example_http_def example_task_def plain_response_def
  example_listing_def example_attachment_def
  py_lib_simps literal_eval_unfold

lemmas b64_simps = py_b64decode_def sextet_def b64_alphabet_def byte_def char_of_def bit_Suc_0_iff

section \<open>The response extractor\<close>

text \<open>
  Claim C1. When the text the provider returns holds one brace-delimited literal, that is,
  the span from its first \<^verbatim>\<open>{\<close> to its last \<^verbatim>\<open>}\<close> is a literal that
  \<^verbatim>\<open>ast.literal_eval\<close> reads as a mapping, \<^verbatim>\<open>_execute_llm_call\<close> returns that mapping
  unchanged, whatever prose stands before and after the span.
\<close>

theorem extractor_returns_the_mapping:
  assumes "llm E log prompt = Inr (Some (pre @ CHR ''{'' # mid @ CHR ''}'' # post))"
    and "CHR ''{'' \<notin> set pre" and "CHR ''}'' \<notin> set post"
    and "literal_eval L (CHR ''{'' # mid @ [CHR ''}'']) = Inr (PyDict files)"
  shows "fst (execute_llm_call L E log prompt) = files"
  using assms by (simp add: execute_llm_call_def parse_response_def brace_span_greedy)

theorem extractor_returns_the_mapping_witness:
  "fst (execute_llm_call py_lib
          (example_env [] ''Here is the app: { 'index.html': '<h1>Hello</h1>', 'README.md': '# demo' } Enjoy!'' [] 201 200)
          [] example_prompt)
     = [(PyStr ''index.html'', PyStr ''<h1>Hello</h1>''), (PyStr ''README.md'', PyStr ''# demo'')]"
proof -
  let ?E = "example_env [] ''Here is the app: { 'index.html': '<h1>Hello</h1>', 'README.md': '# demo' } Enjoy!'' [] 201 200"
  let ?mid = "'' 'index.html': '<h1>Hello</h1>', 'README.md': '# demo' ''"
  have reply: "llm ?E [] example_prompt = Inr (Some (''Here is the app: '' @ CHR ''{'' # ?mid @ CHR ''}'' # '' Enjoy!''))"
    by (simp add: example_env_simps example_llm_def example_prompt_def)
  have pre: "CHR ''{'' \<notin> set ''Here is the app: ''" by simp
  have post: "CHR ''}'' \<notin> set '' Enjoy!''" by simp
  have parsed: "literal_eval py_lib (CHR ''{'' # ?mid @ [CHR ''}''])
      = Inr (PyDict [(PyStr ''index.html'', PyStr ''<h1>Hello</h1>''), (PyStr ''README.md'', PyStr ''# demo'')])"
    by (simp add: py_lib_simps literal_eval_unfold)
  show ?thesis
    by (rule extractor_returns_the_mapping [OF reply pre post parsed])
qed

text \<open>
  The span is greedy: with a further \<^verbatim>\<open>}\<close> after the literal, the span is not the
  literal any more, \<^verbatim>\<open>ast.literal_eval\<close> raises \<^verbatim>\<open>SyntaxError\<close> on it and the extractor
  returns the \<^verbatim>\<open>error.txt\<close> entry.
\<close>

lemma extractor_stray_brace_example:
  "fst (execute_llm_call py_lib (example_env [] ''{'a': 'b'} }'' [] 201 200) [] example_prompt)
     = error_txt ''{'a': 'b'} }''"
  by (simp add: execute_llm_call_def parse_response_def brace_span_def example_env_simps example_llm_def
        example_prompt_def py_lib_simps literal_eval_unfold)

text \<open>
  Claim C4, as the code has it. The mapping that \<^verbatim>\<open>_execute_llm_call\<close> returns is empty
  exactly when the greedy span of the provider's text parses to the empty mapping; in
  every other case (no span, a span that does not parse to a mapping, no content, an
  exception of the provider) it has an entry.
\<close>

theorem extractor_empty_iff:
  "fst (execute_llm_call L E log prompt) = [] \<longleftrightarrow>
     (\<exists>content span. llm E log prompt = Inr (Some content) \<and> brace_span content = Some span
         \<and> literal_eval L span = Inr (PyDict []))"
  by (auto simp: execute_llm_call_def parse_response_def error_html_def error_txt_def index_html_fallback_def
        split: sum.splits option.splits pyval.splits)

theorem extractor_empty_iff_witness:
  "\<exists>content span. llm (example_env [] ''{}'' [] 201 200) [] example_prompt = Inr (Some content)
      \<and> brace_span content = Some span \<and> literal_eval py_lib span = Inr (PyDict [])"
  using extractor_empty_iff [of py_lib "example_env [] ''{}'' [] 201 200" "[]" example_prompt]
  by (simp add: execute_llm_call_def parse_response_def brace_span_def example_env_simps example_llm_def
        example_prompt_def py_lib_simps literal_eval_unfold)

text \<open>The provider's text \<^verbatim>\<open>{}\<close> is returned as the empty mapping.\<close>

theorem extractor_empty_counterexample:
  "fst (execute_llm_call py_lib (example_env [] ''{}'' [] 201 200) [] example_prompt) = []"
  by (simp add: execute_llm_call_def parse_response_def brace_span_def example_env_simps example_llm_def
        example_prompt_def py_lib_simps literal_eval_unfold)

text \<open>
  Every branch other than a span that parses to a mapping (no span, a span that parses to
  something else or does not parse, no content, an exception of the provider) returns a
  mapping of one entry.
\<close>

lemma extractor_fallback_single_entry:
  "(\<exists>content span files. llm E log prompt = Inr (Some content) \<and> brace_span content = Some span
        \<and> literal_eval L span = Inr (PyDict files))
   \<or> length (fst (execute_llm_call L E log prompt)) = 1"
  by (auto simp: execute_llm_call_def parse_response_def error_html_def error_txt_def index_html_fallback_def
        split: sum.splits option.splits pyval.splits)

text \<open>
  A span on which \<^verbatim>\<open>ast.literal_eval\<close> raises \<^verbatim>\<open>ValueError\<close> or \<^verbatim>\<open>SyntaxError\<close>, or
  which it reads as a value that is not a mapping, gives the single entry
  \<^verbatim>\<open>error.txt\<close>, whose value ends with the provider's text.
\<close>

lemma extractor_error_txt:
  assumes "llm E log prompt = Inr (Some content)" and "brace_span content = Some span"
    and "(\<exists>c m. literal_eval L span = Inl (c, m) \<and> is_value_or_syntax_error c)
         \<or> (\<exists>v. literal_eval L span = Inr v \<and> (\<forall>d. v \<noteq> PyDict d))"
  shows "fst (execute_llm_call L E log prompt) = error_txt content"
  using assms by (auto simp: execute_llm_call_def parse_response_def split: pyval.splits)

lemma error_txt_contains_raw:
  "\<exists>v. error_txt content = [(PyStr ''error.txt'', PyStr v)] \<and> suffix content v"
  by (simp add: error_txt_def suffix_def)

text \<open>
  Claim C5, at the provider's text \<^verbatim>\<open>{{}}\<close>: the span is the whole text,
  \<^verbatim>\<open>ast.literal_eval\<close> raises \<^verbatim>\<open>TypeError\<close> on it (a set holding a dict), the inner
  handler does not catch that, and the outer handler returns the entry \<^verbatim>\<open>error.html\<close>
  with the exception's message, in which the provider's text does not occur.
\<close>

theorem extractor_type_error_drops_raw_text:
  "fst (execute_llm_call py_lib (example_env [] ''{{}}'' [] 201 200) [] example_prompt)
     = [(PyStr ''error.html'',
         PyStr ''<html><body><h1>Failed to generate app via LLM</h1><pre>unhashable type: 'dict'</pre></body></html>'')]
   \<and> \<not> sublist ''{{}}''
         ''<html><body><h1>Failed to generate app via LLM</h1><pre>unhashable type: 'dict'</pre></body></html>''"
proof
  show "fst (execute_llm_call py_lib (example_env [] ''{{}}'' [] 201 200) [] example_prompt)
     = [(PyStr ''error.html'',
         PyStr ''<html><body><h1>Failed to generate app via LLM</h1><pre>unhashable type: 'dict'</pre></body></html>'')]"
    by (simp add: execute_llm_call_def parse_response_def brace_span_def example_env_simps example_llm_def
        example_prompt_def py_lib_simps literal_eval_unfold error_html_def)
  show "\<not> sublist ''{{}}''
         ''<html><body><h1>Failed to generate app via LLM</h1><pre>unhashable type: 'dict'</pre></body></html>''"
    by (simp add: sublist_Cons_right prefix_Cons)
qed

section \<open>The relevance filter\<close>

text \<open>
  As long as every value of the response mapping either parses to something that is not
  a list or raises \<^verbatim>\<open>ValueError\<close> or \<^verbatim>\<open>SyntaxError\<close>, the loop goes on; it returns
  the first value that parses to a list.
\<close>

lemma scan_values_none:
  assumes "\<forall>v \<in> snd ` set d. case literal_eval_obj L v of Inl e \<Rightarrow> is_value_or_syntax_error (fst e) | Inr w \<Rightarrow> (\<forall>xs. w \<noteq> PyList xs)"
  shows "scan_values L d = Inr None"
  using assms by (induction d) (auto split: sum.splits pyval.splits)

lemma scan_values_first:
  assumes "\<forall>v \<in> snd ` set before. case literal_eval_obj L v of Inl e \<Rightarrow> is_value_or_syntax_error (fst e) | Inr w \<Rightarrow> (\<forall>xs. w \<noteq> PyList xs)"
    and "literal_eval_obj L val = Inr (PyList xs)"
  shows "scan_values L (before @ (key, val) # rest) = Inr (Some xs)"
  using assms by (induction before) (auto split: sum.splits pyval.splits)

lemma filter_identity_fallback:
  assumes "\<forall>v \<in> snd ` set (fst (execute_llm_call L E log (FilterPrompt b file_list))).
             case literal_eval_obj L v of Inl e \<Rightarrow> is_value_or_syntax_error (fst e) | Inr w \<Rightarrow> (\<forall>xs. w \<noteq> PyList xs)"
  shows "fst (llm_filter_relevant_files L E log b file_list) = Inr (map PyStr file_list)"
  using scan_values_none [OF assms]
  by (auto simp: llm_filter_relevant_files_def split: prod.splits)

lemma filter_first_list:
  assumes "fst (execute_llm_call L E log (FilterPrompt b file_list)) = before @ (key, val) # rest"
    and "\<forall>v \<in> snd ` set before. case literal_eval_obj L v of Inl e \<Rightarrow> is_value_or_syntax_error (fst e) | Inr w \<Rightarrow> (\<forall>xs. w \<noteq> PyList xs)"
    and "literal_eval_obj L val = Inr (PyList xs)"
  shows "fst (llm_filter_relevant_files L E log b file_list) = Inr xs"
  using scan_values_first [OF assms(2,3), of key rest] assms(1)
  by (auto simp: llm_filter_relevant_files_def split: prod.splits)

lemma filter_example:
  "fst (llm_filter_relevant_files py_lib (example_env ''['style.css']'' [] [] 201 200) []
          ''change the button color'' [''index.html'', ''style.css''])
     = Inr [PyStr ''style.css'']"
  by (simp add: llm_filter_relevant_files_def execute_llm_call_def parse_response_def brace_span_def
        example_env_simps example_llm_def py_lib_simps literal_eval_unfold literal_eval_obj_def index_html_fallback_def)

text \<open>
  Claim C6, at the provider's answer \<^verbatim>\<open>{'files': '{[]}'}\<close> to the relevance query: the
  extractor returns the mapping with the one value \<^verbatim>\<open>{[]}\<close>, no value parses as a list,
  and \<^verbatim>\<open>ast.literal_eval\<close> raises \<^verbatim>\<open>TypeError\<close> on that value (a set holding a list).
  \<^verbatim>\<open>except (ValueError, SyntaxError)\<close> does not catch it: the filter raises instead of
  returning the input path list.
\<close>

theorem filter_raises_type_error:
  "fst (llm_filter_relevant_files py_lib (example_env ''{'files': '{[]}'}'' [] [] 201 200) []
          ''change the button color'' [''index.html'', ''style.css''])
     = Inl (TypeError, ''unhashable type: 'list''  @ [CHR 0x27])"
  by (simp add: llm_filter_relevant_files_def execute_llm_call_def parse_response_def brace_span_def
        example_env_simps example_llm_def py_lib_simps literal_eval_unfold literal_eval_obj_def)

section \<open>How the log grows\<close>

text \<open>
  Each function appends the calls it makes to the log it is given: the generation makes
  model calls only, the snapshot reads only.
\<close>

lemma puts_append [simp]: "puts (xs @ ys) = puts xs @ puts ys"
  by (induction xs rule: puts.induct) auto


lemma valid_write_kind: "valid_write ev \<Longrightarrow> kind_of ev = Write"
  by (cases ev rule: valid_write.cases) auto

lemma session_request_eq:
  "session_request E log r = (a, log') \<longleftrightarrow> a = http E log r \<and> log' = log @ [Http r a]"
  by (auto simp: session_request_def)

lemma execute_llm_call_snd:
  "snd (execute_llm_call L E log p) = log @ [ChatCompletion p (llm E log p)]"
  by (simp add: execute_llm_call_def)

lemma llm_filter_snd:
  "snd (llm_filter_relevant_files L E log b file_list)
     = log @ [ChatCompletion (FilterPrompt b file_list) (llm E log (FilterPrompt b file_list))]"
  by (auto simp: llm_filter_relevant_files_def execute_llm_call_def split: sum.splits option.splits)

lemma generate_app_code_log:
  "\<exists>new. snd (generate_app_code L E log nm b cs atts existing) = log @ new \<and> kind_of ` set new \<subseteq> {ModelCall}"
proof (cases "\<exists>f fs. existing = Some (f # fs)")
  case True
  then obtain f fs where e: "existing = Some (f # fs)" by blast
  obtain r1 log1 where f1: "llm_filter_relevant_files L E log b (map fst (f # fs)) = (r1, log1)"
    by (cases "llm_filter_relevant_files L E log b (map fst (f # fs))")
  have log1: "log1 = log @ [ChatCompletion (FilterPrompt b (map fst (f # fs))) (llm E log (FilterPrompt b (map fst (f # fs))))]"
    using llm_filter_snd [of L E log b "map fst (f # fs)"] f1 by simp
  show ?thesis
    using e f1 log1
    by (auto simp: generate_app_code_def modify_existing_app_def execute_llm_call_def
          split: sum.splits prod.splits)
next
  case False
  then have "generate_app_code L E log nm b cs atts existing
      = (case generate_new_app L E log nm b cs atts of (files, log1) \<Rightarrow> (Inr files, log1))"
    by (auto simp: generate_app_code_def split: option.splits list.splits)
  then show ?thesis
    by (simp add: generate_new_app_def execute_llm_call_def)
qed

lemma get_repo_log:
  "\<exists>new. snd (get_repo_files d E log repo path) = log @ new \<and> kind_of ` set new \<subseteq> {Read}"
  "\<exists>new. snd (get_repo_items d E log repo items acc) = log @ new \<and> kind_of ` set new \<subseteq> {Read}"
proof (induction d E log repo path and d E log repo items acc rule: get_repo_files_get_repo_items.induct)
  case (1 E log repo_name path)
  then show ?case by simp
next
  case (2 depth E log repo_name path)
  let ?ev = "Http (ContentsGet repo_name path) (http E log (ContentsGet repo_name path))"
  show ?case
  proof (cases "http E log (ContentsGet repo_name path)")
    case (Inl e)
    then show ?thesis by (simp add: session_request_def)
  next
    case (Inr resp)
    show ?thesis
    proof (cases "status_code resp = 200 \<and> (\<exists>items. resp_json resp = Listing items)")
      case True
      then obtain items where it: "resp_json resp = Listing items" and st: "\<not> status_code resp \<noteq> 200" by blast
      have req: "(Inr resp, log @ [?ev]) = session_request E log (ContentsGet repo_name path)"
        by (simp add: session_request_def Inr)
      from 2 [OF req refl st it]
      obtain new where "snd (get_repo_items depth E (log @ [?ev]) repo_name items []) = (log @ [?ev]) @ new"
        and "kind_of ` set new \<subseteq> {Read}"
        by blast
      then have "snd (get_repo_files (Suc depth) E log repo_name path) = log @ (?ev # new)"
        and "kind_of ` set (?ev # new) \<subseteq> {Read}"
        using Inr it st by (auto simp: session_request_def)
      then show ?thesis by blast
    next
      case False
      then have "snd (get_repo_files (Suc depth) E log repo_name path) = log @ [?ev]"
        using Inr by (auto simp: session_request_def split: body.splits)
      moreover have "kind_of ` set [?ev] \<subseteq> {Read}" by simp
      ultimately show ?thesis by blast
    qed
  qed
next
  case (3 depth E log repo_name existing_files)
  then show ?case by simp
next
  case (4 depth E log repo_name it items existing_files)
  show ?case
  proof (cases "item_type it = ''file''")
    case True
    let ?ev = "Http (DownloadGet (download_url it)) (http E log (DownloadGet (download_url it)))"
    show ?thesis
    proof (cases "http E log (DownloadGet (download_url it))")
      case (Inl e)
      then have "snd (get_repo_items depth E log repo_name (it # items) existing_files) = log @ [?ev]"
        using True by (simp add: session_request_def)
      moreover have "kind_of ` set [?ev] \<subseteq> {Read}" by simp
      ultimately show ?thesis by blast
    next
      case (Inr resp)
      have req: "(Inr resp, log @ [?ev]) = session_request E log (DownloadGet (download_url it))"
        by (simp add: session_request_def Inr)
      from 4(1) [OF True req refl]
      obtain new where "snd (get_repo_items depth E (log @ [?ev]) repo_name items
            (if status_code resp = 200 then dict_put (item_path it) (resp_text resp) existing_files
             else existing_files)) = (log @ [?ev]) @ new"
        and "kind_of ` set new \<subseteq> {Read}"
        by blast
      then have "snd (get_repo_items depth E log repo_name (it # items) existing_files) = log @ (?ev # new)"
        and "kind_of ` set (?ev # new) \<subseteq> {Read}"
        using True Inr by (auto simp: session_request_def)
      then show ?thesis by blast
    qed
  next
    case notfile: False
    show ?thesis
    proof (cases "item_type it = ''dir''")
      case True
      obtain r1 log1 where sub: "get_repo_files depth E log repo_name (item_path it) = (r1, log1)"
        by (cases "get_repo_files depth E log repo_name (item_path it)")
      from 4(2) [OF notfile True] sub
      obtain new1 where log1: "log1 = log @ new1" and k1: "kind_of ` set new1 \<subseteq> {Read}"
        by auto
      show ?thesis
      proof (cases r1)
        case (Inl e)
        then have "snd (get_repo_items depth E log repo_name (it # items) existing_files) = log @ new1"
          using notfile True sub log1 by simp
        then show ?thesis using k1 by blast
      next
        case (Inr files)
        from 4(3) [OF notfile True sub [symmetric] Inr]
        obtain new2 where "snd (get_repo_items depth E log1 repo_name items (dict_update existing_files files)) = log1 @ new2"
          and k2: "kind_of ` set new2 \<subseteq> {Read}"
          by blast
        then have "snd (get_repo_items depth E log repo_name (it # items) existing_files) = log @ (new1 @ new2)"
          using notfile True sub log1 Inr by simp
        moreover have "kind_of ` set (new1 @ new2) \<subseteq> {Read}"
          using k1 k2 by auto
        ultimately show ?thesis by blast
      qed
    next
      case False
      from 4(4) [OF notfile False] show ?thesis
        using notfile False by simp
    qed
  qed
qed

text \<open>
  A call of \<^verbatim>\<open>upload_or_update_file\<close> reads, then writes at most once, at the path it was
  given and with the bytes of the content it was given; when it returns an identifier,
  it has written, and an identifier that Python takes as true comes from a write the
  store accepted.
\<close>

lemma upload_or_update_file_log:
  assumes "upload_or_update_file L E log repo path content = (r, log')"
  shows "\<exists>new. log' = log @ new \<and> kind_of ` set new \<subseteq> {Read, Write}
     \<and> (puts new = [] \<or> (\<exists>bytes. content_bytes content = Inr bytes \<and> puts new = [(repo, format_value L path, bytes)]))
     \<and> (\<forall>sha. r = Inr sha \<longrightarrow>
           (\<exists>bytes. content_bytes content = Inr bytes \<and> puts new = [(repo, format_value L path, bytes)])
           \<and> (truthy sha \<longrightarrow> (\<exists>ev \<in> set new. valid_write ev)))"
proof -
  let ?g = "Http (ContentsGet repo (format_value L path)) (http E log (ContentsGet repo (format_value L path)))"
  show ?thesis
  proof (cases "http E log (ContentsGet repo (format_value L path))")
    case (Inl e)
    then have "log' = log @ [?g]" "\<forall>sha. r \<noteq> Inr sha"
      using assms by (auto simp: upload_or_update_file_def session_request_def)
    then show ?thesis by (intro exI[of _ "[?g]"]) simp
  next
    case (Inr get_resp)
    show ?thesis
    proof (cases "content_bytes content")
      case cb: (Inl e)
      then have "log' = log @ [?g]" "\<forall>sha. r \<noteq> Inr sha"
        using assms Inr by (auto simp: upload_or_update_file_def session_request_def split: sum.splits if_splits body.splits option.splits)
      then show ?thesis by (intro exI[of _ "[?g]"]) simp
    next
      case cb: (Inr bytes)
      show ?thesis
      proof (cases "log' = log @ [?g]")
        case True
        then have "\<forall>sha. r \<noteq> Inr sha"
          using assms Inr cb by (auto simp: upload_or_update_file_def session_request_def split: sum.splits if_splits body.splits option.splits)
        then show ?thesis using True by (intro exI[of _ "[?g]"]) simp
      next
        case False
        then obtain sha0 a where l: "log' = log @ [?g, Http (ContentsPut repo (format_value L path) bytes sha0) a]"
          and ok: "\<forall>sha. r = Inr sha \<longrightarrow> truthy sha \<longrightarrow> valid_write (Http (ContentsPut repo (format_value L path) bytes sha0) a)"
          using assms Inr cb
          by (auto simp: upload_or_update_file_def session_request_def split: sum.splits if_splits body.splits option.splits)
        show ?thesis
          using l ok cb by (intro exI[of _ "[?g, Http (ContentsPut repo (format_value L path) bytes sha0) a]"]) auto
      qed
    qed
  qed
qed


lemma upload_all_log:
  assumes "upload_all L E log repo files latest = (r, log')"
  shows "\<exists>new. log' = log @ new \<and> kind_of ` set new \<subseteq> {Read, Write}
     \<and> (\<forall>w \<in> set (puts new). \<exists>k c b. (k, c) \<in> set files \<and> w = (repo, format_value L k, b) \<and> content_bytes c = Inr b)
     \<and> (\<forall>sha. r = Inr sha \<longrightarrow>
           map (fst \<circ> snd) (puts new) = map (format_value L \<circ> fst) files
           \<and> (truthy sha \<longrightarrow> \<not> truthy latest \<longrightarrow> (\<exists>ev \<in> set new. valid_write ev)))"
  using assms
proof (induction files arbitrary: log latest)
  case Nil
  then show ?case by auto
next
  case (Cons kc rest)
  obtain path content where kc: "kc = (path, content)" by (cases kc)
  obtain r1 log1 where u: "upload_or_update_file L E log repo path content = (r1, log1)"
    by (cases "upload_or_update_file L E log repo path content")
  from upload_or_update_file_log [OF u]
  obtain new1 where log1: "log1 = log @ new1" and k1: "kind_of ` set new1 \<subseteq> {Read, Write}"
    and p1: "puts new1 = [] \<or> (\<exists>bytes. content_bytes content = Inr bytes \<and> puts new1 = [(repo, format_value L path, bytes)])"
    and s1: "\<forall>sha. r1 = Inr sha \<longrightarrow>
           (\<exists>bytes. content_bytes content = Inr bytes \<and> puts new1 = [(repo, format_value L path, bytes)])
           \<and> (truthy sha \<longrightarrow> (\<exists>ev \<in> set new1. valid_write ev))"
    by blast
  have w1: "\<forall>w \<in> set (puts new1). \<exists>k c b. (k, c) \<in> set (kc # rest) \<and> w = (repo, format_value L k, b) \<and> content_bytes c = Inr b"
    using p1 kc by fastforce
  show ?case
  proof (cases r1)
    case (Inl e)
    then have "log' = log @ new1" "\<forall>sha. r \<noteq> Inr sha"
      using Cons.prems u kc log1 by auto
    then show ?thesis using k1 w1 by blast
  next
    case (Inr sha1)
    then have rest: "upload_all L E log1 repo rest sha1 = (r, log')"
      using Cons.prems u kc by simp
    from Cons.IH [OF rest]
    obtain new2 where log': "log' = log1 @ new2" and k2: "kind_of ` set new2 \<subseteq> {Read, Write}"
      and w2: "\<forall>w \<in> set (puts new2). \<exists>k c b. (k, c) \<in> set rest \<and> w = (repo, format_value L k, b) \<and> content_bytes c = Inr b"
      and s2: "\<forall>sha. r = Inr sha \<longrightarrow>
           map (fst \<circ> snd) (puts new2) = map (format_value L \<circ> fst) rest
           \<and> (truthy sha \<longrightarrow> \<not> truthy sha1 \<longrightarrow> (\<exists>ev \<in> set new2. valid_write ev))"
      by blast
    have a: "log' = log @ (new1 @ new2)" using log1 log' by simp
    have b: "kind_of ` set (new1 @ new2) \<subseteq> {Read, Write}" using k1 k2 by auto
    have c: "\<forall>w \<in> set (puts (new1 @ new2)). \<exists>k c b. (k, c) \<in> set (kc # rest) \<and> w = (repo, format_value L k, b) \<and> content_bytes c = Inr b"
      using w1 w2 by fastforce
    have d: "\<forall>sha. r = Inr sha \<longrightarrow>
           map (fst \<circ> snd) (puts (new1 @ new2)) = map (format_value L \<circ> fst) (kc # rest)
           \<and> (truthy sha \<longrightarrow> \<not> truthy latest \<longrightarrow> (\<exists>ev \<in> set (new1 @ new2). valid_write ev))"
      using s1 s2 Inr kc by auto
    show ?thesis using a b c d by blast
  qed
qed

text \<open>
  The identifier that the writes return is the one the store answered to the last write
  it accepted; requests of other kinds leave it as it is.
\<close>

lemma latest_identifier_append:
  "latest_identifier x (xs @ ys) = latest_identifier (latest_identifier x xs) ys"
  by (induction x xs rule: latest_identifier.induct) simp_all

lemma latest_identifier_no_write:
  "Write \<notin> kind_of ` set evs \<Longrightarrow> latest_identifier x evs = x"
  by (induction x evs rule: latest_identifier.induct) auto

lemma upload_or_update_file_identifier:
  assumes "upload_or_update_file L E log repo path content = (Inr sha, log')"
  shows "\<exists>new. log' = log @ new \<and> (\<forall>x. latest_identifier x new = sha)"
proof -
  let ?g = "Http (ContentsGet repo (format_value L path)) (http E log (ContentsGet repo (format_value L path)))"
  from assms obtain bytes sha0 resp s where l: "log' = log @ [?g, Http (ContentsPut repo (format_value L path) bytes sha0) (Inr resp)]"
    and ok: "status_code resp = 200 \<or> status_code resp = 201" and js: "resp_json resp = Object s (Some sha)"
    by (auto simp: upload_or_update_file_def session_request_def split: sum.splits if_splits body.splits option.splits)
  show ?thesis
    using l ok js by (intro exI[of _ "[?g, Http (ContentsPut repo (format_value L path) bytes sha0) (Inr resp)]"]) auto
qed

lemma upload_all_identifier:
  assumes "upload_all L E log repo files latest = (Inr sha, log')"
  shows "\<exists>new. log' = log @ new \<and> latest_identifier latest new = sha"
  using assms
proof (induction files arbitrary: log latest)
  case Nil
  then show ?case by simp
next
  case (Cons kc rest)
  obtain path content where kc: "kc = (path, content)" by (cases kc)
  obtain r1 log1 where u: "upload_or_update_file L E log repo path content = (r1, log1)"
    by (cases "upload_or_update_file L E log repo path content")
  from Cons.prems kc u obtain sha1 where r1: "r1 = Inr sha1"
    and rest: "upload_all L E log1 repo rest sha1 = (Inr sha, log')"
    by (cases r1) auto
  from upload_or_update_file_identifier [OF u [unfolded r1]]
  obtain new1 where log1: "log1 = log @ new1" and i1: "\<forall>x. latest_identifier x new1 = sha1" by blast
  from Cons.IH [OF rest]
  obtain new2 where log': "log' = log1 @ new2" and i2: "latest_identifier sha1 new2 = sha" by blast
  show ?case
    using log1 log' i1 i2 by (intro exI[of _ "new1 @ new2"]) (simp add: latest_identifier_append)
qed

section \<open>The rounds\<close>

text \<open>
  A creation round never notifies the sink itself, and an identifier it returns that
  Python takes as true comes from a write the store accepted.
\<close>

lemma generate_app_code_extends:
  assumes "generate_app_code L E log nm b cs atts existing = (r, log')"
  shows "\<exists>new. log' = log @ new \<and> kind_of ` set new \<subseteq> {ModelCall}"
  using generate_app_code_log [of L E log nm b cs atts existing] assms by simp

lemma get_repo_files_extends:
  assumes "get_repo_files d E log repo path = (r, log')"
  shows "\<exists>new. log' = log @ new \<and> kind_of ` set new \<subseteq> {Read}"
  using get_repo_log(1) [of d E log repo path] assms by simp

lemma handle_round_1_log:
  assumes "handle_round_1 L E log t = (r, log')"
  shows "\<exists>new. log' = log @ new \<and> Notification \<notin> kind_of ` set new
     \<and> (\<forall>sha. r = Inr sha \<longrightarrow> truthy sha \<longrightarrow> (\<exists>ev \<in> set new. valid_write ev))"
proof -
  let ?c = "Http (CreateRepo (task t)) (http E log (CreateRepo (task t)))"
  have stop: "\<exists>new. log' = log @ new \<and> Notification \<notin> kind_of ` set new
     \<and> (\<forall>sha. r = Inr sha \<longrightarrow> truthy sha \<longrightarrow> (\<exists>ev \<in> set new. valid_write ev))"
    if "log' = log @ [?c]" "\<forall>sha. r \<noteq> Inr sha"
    using that by (intro exI[of _ "[?c]"]) simp
  show ?thesis
  proof (cases "\<exists>resp atts. http E log (CreateRepo (task t)) = Inr resp \<and> status_code resp = 201 \<and> attachments t = Some atts")
    case False
    then have "log' = log @ [?c]" "\<forall>sha. r \<noteq> Inr sha"
      using assms by (auto simp: handle_round_1_def session_request_def split: sum.splits option.splits if_splits)
    then show ?thesis by (rule stop)
  next
    case True
    then obtain resp atts where c: "http E log (CreateRepo (task t)) = Inr resp" "status_code resp = 201"
      and a: "attachments t = Some atts" by blast
    obtain r2 log2 where g: "generate_app_code L E (log @ [?c]) (task t) (brief t) (checks t) (attachments_for_generator atts) None = (r2, log2)"
      by (cases "generate_app_code L E (log @ [?c]) (task t) (brief t) (checks t) (attachments_for_generator atts) None")
    from generate_app_code_extends [OF g]
    obtain new2 where log2: "log2 = (log @ [?c]) @ new2" and k2: "kind_of ` set new2 \<subseteq> {ModelCall}" by blast
    have stop2: ?thesis if "log' = log2" "\<forall>sha. r \<noteq> Inr sha"
      using that log2 k2 by (intro exI[of _ "?c # new2"]) auto
    show ?thesis
    proof (cases "\<exists>files files_to_upload. r2 = Inr files \<and> overlay_attachments L atts files = Inr files_to_upload")
      case False
      then have "log' = log2" "\<forall>sha. r \<noteq> Inr sha"
        using assms c a g by (auto simp: handle_round_1_def session_request_def split: sum.splits if_splits)
      then show ?thesis by (rule stop2)
    next
      case True
      then obtain files files_to_upload where r2: "r2 = Inr files"
        and ov: "overlay_attachments L atts files = Inr files_to_upload" by blast
      obtain r3 log3 where u: "upload_all L E log2 (task t) files_to_upload PyNone = (r3, log3)"
        by (cases "upload_all L E log2 (task t) files_to_upload PyNone")
      from upload_all_log [OF u]
      obtain new3 where log3: "log3 = log2 @ new3" and k3: "kind_of ` set new3 \<subseteq> {Read, Write}"
        and v3: "\<forall>sha. r3 = Inr sha \<longrightarrow> truthy sha \<longrightarrow> (\<exists>ev \<in> set new3. valid_write ev)"
        by auto
      show ?thesis
      proof (cases r3)
        case (Inl e)
        then have "log' = log3" "\<forall>sha. r \<noteq> Inr sha"
          using assms c a g r2 ov u by (auto simp: handle_round_1_def session_request_def split: if_splits)
        then show ?thesis
          using log2 log3 k2 k3 by (intro exI[of _ "?c # new2 @ new3"]) auto
      next
        case (Inr latest)
        let ?p = "Http (EnablePages (task t)) (http E log3 (EnablePages (task t)))"
        have "log' = log3 @ [?p]" "\<forall>sha. r = Inr sha \<longrightarrow> sha = latest"
          using assms c a g r2 ov u Inr by (auto simp: handle_round_1_def session_request_def split: sum.splits if_splits)
        then show ?thesis
          using log2 log3 k2 k3 v3 Inr by (intro exI[of _ "?c # new2 @ new3 @ [?p]"]) auto
      qed
    qed
  qed
qed

text \<open>
  A modification round either stops after reads and model calls, with an exception and
  without a file set, or reaches the writes of its file set; it never notifies the sink
  itself.
\<close>

lemma handle_round_2_cases:
  assumes "handle_round_2 L E log t = (r, log')"
  obtains (stopped) new where "log' = log @ new" and "kind_of ` set new \<subseteq> {Read, ModelCall}"
      and "\<forall>sha. r \<noteq> Inr sha" and "round_2_file_set L E log t = None"
    | (writing) files new1 where "round_2_file_set L E log t = Some files"
      and "kind_of ` set new1 \<subseteq> {Read, ModelCall}"
      and "upload_all L E (log @ new1) (task t) files PyNone = (r, log')"
proof -
  obtain r1 log1 where s: "get_repo_files (recursion_depth E) E log (task t) [] = (r1, log1)"
    by (cases "get_repo_files (recursion_depth E) E log (task t) []")
  from get_repo_files_extends [OF s]
  obtain new1 where log1: "log1 = log @ new1" and k1: "kind_of ` set new1 \<subseteq> {Read}" by blast
  show ?thesis
  proof (cases "\<exists>f fs atts. r1 = Inr (f # fs) \<and> attachments t = Some atts")
    case False
    have "log' = log @ new1 \<and> (\<forall>sha. r \<noteq> Inr sha) \<and> round_2_file_set L E log t = None"
    proof (cases r1)
      case (Inl e)
      then show ?thesis using assms s log1 by (auto simp: handle_round_2_def round_2_file_set_def)
    next
      case (Inr ex)
      show ?thesis
      proof (cases ex)
        case Nil
        then show ?thesis using assms s log1 Inr by (auto simp: handle_round_2_def round_2_file_set_def)
      next
        case (Cons f fs)
        then have "attachments t = None" using False Inr by (cases "attachments t") auto
        then show ?thesis using assms s log1 Inr Cons by (auto simp: handle_round_2_def round_2_file_set_def)
      qed
    qed
    then show ?thesis using k1 by (intro stopped[of new1]) auto
  next
    case True
    then obtain f fs atts where r1: "r1 = Inr (f # fs)" and a: "attachments t = Some atts" by blast
    obtain r2 log2 where g: "generate_app_code L E log1 (task t) (brief t) (checks t) (attachments_for_generator atts) (Some (f # fs)) = (r2, log2)"
      by (cases "generate_app_code L E log1 (task t) (brief t) (checks t) (attachments_for_generator atts) (Some (f # fs))")
    from generate_app_code_extends [OF g]
    obtain new2 where log2: "log2 = log1 @ new2" and k2: "kind_of ` set new2 \<subseteq> {ModelCall}" by blast
    have k12: "kind_of ` set (new1 @ new2) \<subseteq> {Read, ModelCall}" using k1 k2 by auto
    show ?thesis
    proof (cases "\<exists>files files_to_update. r2 = Inr files \<and> overlay_attachments L atts files = Inr files_to_update")
      case False
      then have "log' = log @ (new1 @ new2)" "\<forall>sha. r \<noteq> Inr sha" "round_2_file_set L E log t = None"
        using assms s r1 a g log1 log2
        by (auto simp: handle_round_2_def round_2_file_set_def split: sum.splits)
      then show ?thesis using k12 by (intro stopped[of "new1 @ new2"]) auto
    next
      case True
      then obtain files files_to_update where r2: "r2 = Inr files"
        and ov: "overlay_attachments L atts files = Inr files_to_update" by blast
      have "round_2_file_set L E log t = Some files_to_update"
        using s r1 a g r2 ov by (simp add: round_2_file_set_def)
      moreover have "upload_all L E (log @ (new1 @ new2)) (task t) files_to_update PyNone = (r, log')"
        using assms s r1 a g r2 ov log1 log2 by (simp add: handle_round_2_def)
      ultimately show ?thesis using k12 by (intro writing[of files_to_update "new1 @ new2"]) auto
    qed
  qed
qed

lemma handle_round_2_log:
  assumes "handle_round_2 L E log t = (r, log')"
  shows "\<exists>new. log' = log @ new \<and> Notification \<notin> kind_of ` set new
     \<and> (\<forall>sha. r = Inr sha \<longrightarrow> truthy sha \<longrightarrow> (\<exists>ev \<in> set new. valid_write ev))"
  using assms
proof (cases rule: handle_round_2_cases)
  case (stopped new)
  then show ?thesis by (intro exI[of _ new]) auto
next
  case (writing files new1)
  from upload_all_log [OF writing(3)]
  obtain new3 where log3: "log' = (log @ new1) @ new3" and k3: "kind_of ` set new3 \<subseteq> {Read, Write}"
    and v3: "\<forall>sha. r = Inr sha \<longrightarrow> truthy sha \<longrightarrow> (\<exists>ev \<in> set new3. valid_write ev)"
    by auto
  show ?thesis
    using log3 k3 v3 writing(2) by (intro exI[of _ "new1 @ new3"]) auto
qed

text \<open>
  Both rounds, seen from the generated file set: a round either stops without a write
  and without an identifier (when it has a generated set, the overlay of the attachments
  has raised), or it overlays the attachments on the generated set and runs the writes of
  the result, followed in the creation round by the hosting call.
\<close>

lemma handle_round_1_cases:
  assumes "round_number t = 1" and "handle_round_1 L E log t = (r, log')"
  obtains (stopped) new where "log' = log @ new" and "Write \<notin> kind_of ` set new"
      and "\<forall>sha. r \<noteq> Inr sha"
      and "\<forall>atts files log2 fs. generated_file_set L E log t = Some (atts, files, log2)
              \<longrightarrow> overlay_attachments L atts files \<noteq> Inr fs"
    | (writing) atts files new1 fs r3 log3 more where
        "generated_file_set L E log t = Some (atts, files, log @ new1)"
      and "attachments t = Some atts" and "overlay_attachments L atts files = Inr fs"
      and "Write \<notin> kind_of ` set new1"
      and "upload_all L E (log @ new1) (task t) fs PyNone = (r3, log3)"
      and "log' = log3 @ more" and "Write \<notin> kind_of ` set more"
      and "\<forall>sha. r = Inr sha \<longrightarrow> r3 = Inr sha"
proof -
  let ?c = "Http (CreateRepo (task t)) (http E log (CreateRepo (task t)))"
  show ?thesis
  proof (cases "\<exists>resp atts. http E log (CreateRepo (task t)) = Inr resp \<and> status_code resp = 201 \<and> attachments t = Some atts")
    case False
    then have "log' = log @ [?c]" "\<forall>sha. r \<noteq> Inr sha" "generated_file_set L E log t = None"
      using assms
      by (auto simp: handle_round_1_def generated_file_set_def session_request_def
            split: sum.splits option.splits if_splits)
    then show ?thesis by (intro stopped[of "[?c]"]) auto
  next
    case True
    then obtain resp atts where c: "http E log (CreateRepo (task t)) = Inr resp" "status_code resp = 201"
      and a: "attachments t = Some atts" by blast
    obtain r2 log2 where g: "generate_app_code L E (log @ [?c]) (task t) (brief t) (checks t) (attachments_for_generator atts) None = (r2, log2)"
      by (cases "generate_app_code L E (log @ [?c]) (task t) (brief t) (checks t) (attachments_for_generator atts) None")
    from generate_app_code_extends [OF g]
    obtain new2 where log2: "log2 = (log @ [?c]) @ new2" and k2: "kind_of ` set new2 \<subseteq> {ModelCall}" by blast
    have k12: "Write \<notin> kind_of ` set (?c # new2)" using k2 by auto
    show ?thesis
    proof (cases "\<exists>files fs. r2 = Inr files \<and> overlay_attachments L atts files = Inr fs")
      case False
      then have "log' = log @ (?c # new2)" "\<forall>sha. r \<noteq> Inr sha"
        "\<forall>atts files log2 fs. generated_file_set L E log t = Some (atts, files, log2)
              \<longrightarrow> overlay_attachments L atts files \<noteq> Inr fs"
        using assms c a g log2
        by (auto simp: handle_round_1_def generated_file_set_def session_request_def split: sum.splits if_splits)
      then show ?thesis using k12 by (intro stopped[of "?c # new2"]) auto
    next
      case True
      then obtain files fs where r2: "r2 = Inr files"
        and ov: "overlay_attachments L atts files = Inr fs" by blast
      have gen: "generated_file_set L E log t = Some (atts, files, log @ (?c # new2))"
        using assms(1) c a g r2 log2 by (simp add: generated_file_set_def session_request_def)
      obtain r3 log3 where u: "upload_all L E (log @ (?c # new2)) (task t) fs PyNone = (r3, log3)"
        by (cases "upload_all L E (log @ (?c # new2)) (task t) fs PyNone")
      show ?thesis
      proof (cases r3)
        case (Inl e)
        then have "log' = log3 @ []" "\<forall>sha. r = Inr sha \<longrightarrow> r3 = Inr sha"
          using assms c a g r2 ov u log2 by (auto simp: handle_round_1_def session_request_def split: if_splits)
        then show ?thesis
          using gen a ov k12 u by (intro writing[of atts files "?c # new2" fs r3 log3 "[]"]) auto
      next
        case (Inr latest)
        let ?p = "Http (EnablePages (task t)) (http E log3 (EnablePages (task t)))"
        have "log' = log3 @ [?p]" "\<forall>sha. r = Inr sha \<longrightarrow> r3 = Inr sha"
          using assms c a g r2 ov u Inr log2 by (auto simp: handle_round_1_def session_request_def split: sum.splits if_splits)
        then show ?thesis
          using gen a ov k12 u by (intro writing[of atts files "?c # new2" fs r3 log3 "[?p]"]) auto
      qed
    qed
  qed
qed

lemma handle_round_2_writing_cases:
  assumes "round_number t > 1" and "handle_round_2 L E log t = (r, log')"
  obtains (stopped) new where "log' = log @ new" and "Write \<notin> kind_of ` set new"
      and "\<forall>sha. r \<noteq> Inr sha"
      and "\<forall>atts files log2 fs. generated_file_set L E log t = Some (atts, files, log2)
              \<longrightarrow> overlay_attachments L atts files \<noteq> Inr fs"
    | (writing) atts files new1 fs r3 log3 more where
        "generated_file_set L E log t = Some (atts, files, log @ new1)"
      and "attachments t = Some atts" and "overlay_attachments L atts files = Inr fs"
      and "Write \<notin> kind_of ` set new1"
      and "upload_all L E (log @ new1) (task t) fs PyNone = (r3, log3)"
      and "log' = log3 @ more" and "Write \<notin> kind_of ` set more"
      and "\<forall>sha. r = Inr sha \<longrightarrow> r3 = Inr sha"
proof -
  have round: "round_number t \<noteq> 1" using assms(1) by simp
  obtain r1 log1 where s: "get_repo_files (recursion_depth E) E log (task t) [] = (r1, log1)"
    by (cases "get_repo_files (recursion_depth E) E log (task t) []")
  from get_repo_files_extends [OF s]
  obtain new1 where log1: "log1 = log @ new1" and k1: "kind_of ` set new1 \<subseteq> {Read}" by blast
  have w1: "Write \<notin> kind_of ` set new1" using k1 by auto
  show ?thesis
  proof (cases "\<exists>f fs atts. r1 = Inr (f # fs) \<and> attachments t = Some atts")
    case False
    have "log' = log @ new1 \<and> (\<forall>sha. r \<noteq> Inr sha) \<and> generated_file_set L E log t = None"
    proof (cases r1)
      case (Inl e)
      then show ?thesis using assms round s log1 by (auto simp: handle_round_2_def generated_file_set_def)
    next
      case (Inr ex)
      show ?thesis
      proof (cases ex)
        case Nil
        then show ?thesis using assms round s log1 Inr by (auto simp: handle_round_2_def generated_file_set_def)
      next
        case (Cons f fs)
        then have "attachments t = None" using False Inr by (cases "attachments t") auto
        then show ?thesis using assms round s log1 Inr Cons by (auto simp: handle_round_2_def generated_file_set_def)
      qed
    qed
    then show ?thesis using w1 by (intro stopped[of new1]) auto
  next
    case True
    then obtain f fs0 atts where r1: "r1 = Inr (f # fs0)" and a: "attachments t = Some atts" by blast
    obtain r2 log2 where g: "generate_app_code L E log1 (task t) (brief t) (checks t) (attachments_for_generator atts) (Some (f # fs0)) = (r2, log2)"
      by (cases "generate_app_code L E log1 (task t) (brief t) (checks t) (attachments_for_generator atts) (Some (f # fs0))")
    from generate_app_code_extends [OF g]
    obtain new2 where log2: "log2 = log1 @ new2" and k2: "kind_of ` set new2 \<subseteq> {ModelCall}" by blast
    have k12: "Write \<notin> kind_of ` set (new1 @ new2)" using k1 k2 by auto
    show ?thesis
    proof (cases "\<exists>files fs. r2 = Inr files \<and> overlay_attachments L atts files = Inr fs")
      case False
      then have "log' = log @ (new1 @ new2)" "\<forall>sha. r \<noteq> Inr sha"
        "\<forall>atts files log2 fs. generated_file_set L E log t = Some (atts, files, log2)
              \<longrightarrow> overlay_attachments L atts files \<noteq> Inr fs"
        using assms round s r1 a g log1 log2
        by (auto simp: handle_round_2_def generated_file_set_def split: sum.splits)
      then show ?thesis using k12 by (intro stopped[of "new1 @ new2"]) auto
    next
      case True
      then obtain files fs where r2: "r2 = Inr files"
        and ov: "overlay_attachments L atts files = Inr fs" by blast
      have gen: "generated_file_set L E log t = Some (atts, files, log @ (new1 @ new2))"
        using assms(1) round s r1 a g r2 log1 log2 by (simp add: generated_file_set_def)
      have u: "upload_all L E (log @ (new1 @ new2)) (task t) fs PyNone = (r, log')"
        using assms s r1 a g r2 ov log1 log2 by (simp add: handle_round_2_def)
      show ?thesis
        using gen a ov k12 u by (intro writing[of atts files "new1 @ new2" fs r log' "[]"]) auto
    qed
  qed
qed

section \<open>The task handler\<close>

lemma round_of_log:
  assumes "round_of L E log t = (r, log')"
  shows "\<exists>new. log' = log @ new \<and> Notification \<notin> kind_of ` set new
     \<and> (\<forall>sha. r = Inr sha \<longrightarrow> truthy sha \<longrightarrow> (\<exists>ev \<in> set new. valid_write ev))"
proof (cases "round_number t = 1")
  case True
  then show ?thesis using assms handle_round_1_log [of L E log t r log'] by (simp add: round_of_def)
next
  case False
  show ?thesis
  proof (cases "round_number t > 1")
    case True
    then show ?thesis using assms False handle_round_2_log [of L E log t r log'] by (simp add: round_of_def)
  next
    case neg: False
    then have "log' = log @ []" "\<forall>sha. r \<noteq> Inr sha" using assms False by (auto simp: round_of_def)
    then show ?thesis by (intro exI[of _ "[]"]) simp
  qed
qed

text \<open>
  \<^verbatim>\<open>handle_task\<close> is the round for the task's round number, then the check of the
  identifier, then the notification.
\<close>

lemma handle_task_round_of:
  "handle_task L E log t =
     (case round_of L E log t of
        (Inl e, log1) \<Rightarrow> (Inl e, log1)
      | (Inr latest_commit_sha, log1) \<Rightarrow>
          if \<not> truthy latest_commit_sha then
            (Inl (Exception, ''Failed to retrieve a valid commit SHA.''), log1)
          else
            (case session_request E log1 (Notify (evaluation_url t) (eval_payload_of t latest_commit_sha)) of
               (Inl e, log2) \<Rightarrow> (Inl e, log2)
             | (Inr eval_resp, log2) \<Rightarrow>
                 if status_code eval_resp \<noteq> 200 then
                   (Inl (Exception, ''Evaluation notification failed: '' @ resp_text eval_resp), log2)
                 else (Inr (), log2)))"
  by (simp add: handle_task_def round_of_def)

lemma round_of_cases:
  assumes "round_of L E log t = (r, log')"
  obtains (stopped) new where "log' = log @ new" and "Write \<notin> kind_of ` set new"
      and "\<forall>sha. r \<noteq> Inr sha"
      and "\<forall>atts files log2 fs. generated_file_set L E log t = Some (atts, files, log2)
              \<longrightarrow> overlay_attachments L atts files \<noteq> Inr fs"
    | (writing) atts files new1 fs r3 log3 more where
        "generated_file_set L E log t = Some (atts, files, log @ new1)"
      and "attachments t = Some atts" and "overlay_attachments L atts files = Inr fs"
      and "Write \<notin> kind_of ` set new1"
      and "upload_all L E (log @ new1) (task t) fs PyNone = (r3, log3)"
      and "log' = log3 @ more" and "Write \<notin> kind_of ` set more"
      and "\<forall>sha. r = Inr sha \<longrightarrow> r3 = Inr sha"
proof (cases "round_number t = 1")
  case True
  then have h: "handle_round_1 L E log t = (r, log')" using assms by (simp add: round_of_def)
  from True h show ?thesis
  proof (cases rule: handle_round_1_cases)
    case (stopped new)
    from stopped show ?thesis by (rule that(1))
  next
    case (writing atts files new1 fs r3 log3 more)
    from writing show ?thesis by (rule that(2))
  qed
next
  case False
  show ?thesis
  proof (cases "round_number t > 1")
    case True
    then have h: "handle_round_2 L E log t = (r, log')" using assms False by (simp add: round_of_def)
    from True h show ?thesis
    proof (cases rule: handle_round_2_writing_cases)
      case (stopped new)
      from stopped show ?thesis by (rule that(1))
    next
      case (writing atts files new1 fs r3 log3 more)
      from writing show ?thesis by (rule that(2))
    qed
  next
    case neg: False
    then have "log' = log @ []" "\<forall>sha. r \<noteq> Inr sha" "generated_file_set L E log t = None"
      using assms False by (auto simp: round_of_def generated_file_set_def)
    then show ?thesis by (intro that(1)[of "[]"]) auto
  qed
qed

text \<open>The identifier a round returns is the identifier of its last write.\<close>

lemma round_of_identifier:
  assumes "round_of L E log t = (Inr sha, log')"
  shows "sha = latest_identifier PyNone (drop (length log) log')"
  using assms
proof (cases rule: round_of_cases)
  case (stopped new)
  then show ?thesis by simp
next
  case (writing atts files new1 fs r3 log3 more)
  then have u: "upload_all L E (log @ new1) (task t) fs PyNone = (Inr sha, log3)" by simp
  from upload_all_identifier [OF u]
  obtain new3 where log3: "log3 = (log @ new1) @ new3" and i: "latest_identifier PyNone new3 = sha" by blast
  have "drop (length log) log' = new1 @ new3 @ more" using writing(6) log3 by simp
  then show ?thesis
    using i writing(4,7) by (simp add: latest_identifier_append latest_identifier_no_write)
qed


text \<open>
  Claim C8. When no write of the run produced a valid identifier (the store accepted no
  write, or answered no identifier that Python takes as true; in particular when the file
  set is empty), \<^verbatim>\<open>handle_task\<close> raises and the run holds no notification of the
  evaluation sink.
\<close>

theorem no_valid_identifier_no_notification:
  assumes "handle_task L E log t = (r, log')"
    and "\<forall>ev \<in> set (drop (length log) log'). \<not> valid_write ev"
  shows "(\<exists>e. r = Inl e) \<and> Notification \<notin> kind_of ` set (drop (length log) log')"
proof -
  obtain r0 log0 where r0: "round_of L E log t = (r0, log0)" by (cases "round_of L E log t")
  from round_of_log [OF r0]
  obtain new where log0: "log0 = log @ new" and nn: "Notification \<notin> kind_of ` set new"
    and v: "\<forall>sha. r0 = Inr sha \<longrightarrow> truthy sha \<longrightarrow> (\<exists>ev \<in> set new. valid_write ev)" by blast
  show ?thesis
  proof (cases "\<exists>sha. r0 = Inr sha \<and> truthy sha")
    case True
    then obtain sha where sha: "r0 = Inr sha" "truthy sha" by blast
    then obtain ev where ev: "ev \<in> set new" "valid_write ev" using v by blast
    have "\<exists>more. log' = log @ new @ more"
      using assms(1) r0 sha log0
      by (auto simp: handle_task_round_of session_request_def split: sum.splits if_splits)
    then have "ev \<in> set (drop (length log) log')" using ev by auto
    then show ?thesis using assms(2) ev by blast
  next
    case False
    then have "log' = log @ new" "\<exists>e. r = Inl e"
      using assms(1) r0 log0
      by (auto simp: handle_task_round_of split: sum.splits if_splits)
    then show ?thesis using nn by simp
  qed
qed

theorem no_valid_identifier_no_notification_witness:
  "handle_task py_lib (example_env [] ''{}'' [] 201 200) [] (example_task 1 [])
     = (Inl (Exception, ''Failed to retrieve a valid commit SHA.''),
        [Http (CreateRepo ''demo-app'') (Inr (plain_response 201 [] NoJson)),
         ChatCompletion (NewAppPrompt ''demo-app'' ''a todo list'' [''has an add button''] []) (Inr (Some ''{}'')),
         Http (EnablePages ''demo-app'') (Inr (plain_response 201 [] NoJson))])
   \<and> (\<exists>e. fst (handle_task py_lib (example_env [] ''{}'' [] 201 200) [] (example_task 1 [])) = Inl e)
   \<and> Notification \<notin> kind_of ` set (snd (handle_task py_lib (example_env [] ''{}'' [] 201 200) [] (example_task 1 [])))"
proof -
  let ?log = "[Http (CreateRepo ''demo-app'') (Inr (plain_response 201 [] NoJson)),
         ChatCompletion (NewAppPrompt ''demo-app'' ''a todo list'' [''has an add button''] []) (Inr (Some ''{}'')),
         Http (EnablePages ''demo-app'') (Inr (plain_response 201 [] NoJson))]"
  have run: "handle_task py_lib (example_env [] ''{}'' [] 201 200) [] (example_task 1 [])
     = (Inl (Exception, ''Failed to retrieve a valid commit SHA.''), ?log)"
    by (simp add: run_simps)
  have none: "\<forall>ev \<in> set (drop (length ([] :: event list)) ?log). \<not> valid_write ev"
    by simp
  from no_valid_identifier_no_notification [OF run none] run
  show ?thesis by simp
qed

text \<open>
  Claim C10. On a round above 1, when the snapshot comes back empty, \<^verbatim>\<open>handle_task\<close>
  raises \<^verbatim>\<open>Could not retrieve existing files to modify.\<close> and the run consists of the
  reads of the snapshot only: no model call, no creation of a repository, no write.
\<close>

theorem empty_snapshot_aborts_before_any_model_call:
  assumes "1 < round_number t"
    and "get_repo_files (recursion_depth E) E log (task t) [] = (Inr [], log1)"
  shows "handle_task L E log t = (Inl (Exception, ''Could not retrieve existing files to modify.''), log1)
     \<and> (\<exists>new. log1 = log @ new \<and> kind_of ` set new \<subseteq> {Read})"
  using assms get_repo_files_extends [OF assms(2)]
  by (simp add: handle_task_def handle_round_2_def)

theorem empty_snapshot_aborts_before_any_model_call_witness:
  "handle_task py_lib (example_env [] ''{ 'index.html': '<h1>Hello</h1>' }'' [] 201 200) [] (example_task 2 [])
     = (Inl (Exception, ''Could not retrieve existing files to modify.''),
        [Http (ContentsGet ''demo-app'' []) (Inr (plain_response 200 [] (Listing [])))])"
proof -
  let ?E = "example_env [] ''{ 'index.html': '<h1>Hello</h1>' }'' [] 201 200"
  have round: "1 < round_number (example_task 2 [])" by (simp add: example_task_def)
  have snapshot: "get_repo_files (recursion_depth ?E) ?E [] (task (example_task 2 [])) []
      = (Inr [], [Http (ContentsGet ''demo-app'' []) (Inr (plain_response 200 [] (Listing [])))])"
    by (simp add: run_simps numeral_3_eq_3)
  from empty_snapshot_aborts_before_any_model_call [OF round snapshot]
  show ?thesis by simp
qed

section \<open>The hosting call\<close>

text \<open>
  A creation round that raises holds no hosting call that the store answered with a
  response.
\<close>

lemma handle_round_1_hosting:
  assumes "handle_round_1 L E log t = (r, log')"
  shows "\<exists>new. log' = log @ new
     \<and> (\<forall>e. r = Inl e \<longrightarrow> (\<forall>repo resp. Http (EnablePages repo) (Inr resp) \<notin> set new))"
proof -
  let ?c = "Http (CreateRepo (task t)) (http E log (CreateRepo (task t)))"
  let ?Q = "\<lambda>new. \<forall>repo resp. Http (EnablePages repo) (Inr resp) \<notin> set new"
  have kinds: "?Q new" if "Hosting \<notin> kind_of ` set new" for new
  proof (intro allI notI)
    fix repo resp assume "Http (EnablePages repo) (Inr resp) \<in> set new"
    then have "kind_of (Http (EnablePages repo) (Inr resp)) \<in> kind_of ` set new" by (rule imageI)
    then show False using that by simp
  qed
  show ?thesis
  proof (cases "\<exists>resp atts. http E log (CreateRepo (task t)) = Inr resp \<and> status_code resp = 201 \<and> attachments t = Some atts")
    case False
    then have "log' = log @ [?c]"
      using assms by (auto simp: handle_round_1_def session_request_def split: sum.splits option.splits if_splits)
    then show ?thesis by (intro exI[of _ "[?c]"]) simp
  next
    case True
    then obtain resp atts where c: "http E log (CreateRepo (task t)) = Inr resp" "status_code resp = 201"
      and a: "attachments t = Some atts" by blast
    obtain r2 log2 where g: "generate_app_code L E (log @ [?c]) (task t) (brief t) (checks t) (attachments_for_generator atts) None = (r2, log2)"
      by (cases "generate_app_code L E (log @ [?c]) (task t) (brief t) (checks t) (attachments_for_generator atts) None")
    from generate_app_code_extends [OF g]
    obtain new2 where log2: "log2 = (log @ [?c]) @ new2" and k2: "kind_of ` set new2 \<subseteq> {ModelCall}" by blast
    show ?thesis
    proof (cases "\<exists>files files_to_upload. r2 = Inr files \<and> overlay_attachments L atts files = Inr files_to_upload")
      case False
      then have "log' = log2"
        using assms c a g by (auto simp: handle_round_1_def session_request_def split: sum.splits if_splits)
      moreover have "?Q (?c # new2)" using k2 by (intro kinds) auto
      ultimately show ?thesis using log2 by (intro exI[of _ "?c # new2"]) simp
    next
      case True
      then obtain files files_to_upload where r2: "r2 = Inr files"
        and ov: "overlay_attachments L atts files = Inr files_to_upload" by blast
      obtain r3 log3 where u: "upload_all L E log2 (task t) files_to_upload PyNone = (r3, log3)"
        by (cases "upload_all L E log2 (task t) files_to_upload PyNone")
      from upload_all_log [OF u]
      obtain new3 where log3: "log3 = log2 @ new3" and k3: "kind_of ` set new3 \<subseteq> {Read, Write}"
        by auto
      have q3: "?Q (?c # new2 @ new3)" using k2 k3 by (intro kinds) auto
      show ?thesis
      proof (cases r3)
        case (Inl e)
        then have "log' = log3"
          using assms c a g r2 ov u by (auto simp: handle_round_1_def session_request_def split: if_splits)
        then show ?thesis
          using log2 log3 q3 by (intro exI[of _ "?c # new2 @ new3"]) simp
      next
        case (Inr latest)
        let ?p = "Http (EnablePages (task t)) (http E log3 (EnablePages (task t)))"
        have l: "log' = log3 @ [?p]" and "\<forall>e. r = Inl e \<longrightarrow> (\<exists>x. http E log3 (EnablePages (task t)) = Inl x)"
          using assms c a g r2 ov u Inr by (auto simp: handle_round_1_def session_request_def split: sum.splits if_splits)
        then have "\<forall>e. r = Inl e \<longrightarrow> ?Q (?c # new2 @ new3 @ [?p])"
          using q3 by auto
        then show ?thesis
          using l log2 log3 by (intro exI[of _ "?c # new2 @ new3 @ [?p]"]) simp
      qed
    qed
  qed
qed

text \<open>
  Claim C7, as the code has it. On round 1, once the hosting call has been answered by a
  response, whatever its status code, \<^verbatim>\<open>_handle_round_1\<close> returns the identifier of the
  last write (the one the store answered to the last write it accepted): when that
  identifier is valid, \<^verbatim>\<open>handle_task\<close> goes on to notify the evaluation sink, and
  otherwise it raises for the identifier, not for the hosting call.
\<close>

theorem hosting_status_is_not_fatal:
  assumes "round_number t = 1" and "handle_task L E log t = (r, log')"
    and "Http (EnablePages repo) (Inr pages_resp) \<in> set (drop (length log) log')"
  shows "\<exists>sha log1. handle_round_1 L E log t = (Inr sha, log1)
     \<and> sha = latest_identifier PyNone (drop (length log) log1)
     \<and> (truthy sha \<longrightarrow> log' = log1 @ [Http (Notify (evaluation_url t) (eval_payload_of t sha))
                                      (http E log1 (Notify (evaluation_url t) (eval_payload_of t sha)))])
     \<and> (\<not> truthy sha \<longrightarrow> r = Inl (Exception, ''Failed to retrieve a valid commit SHA.''))"
proof -
  obtain r1 log1 where h: "handle_round_1 L E log t = (r1, log1)" by (cases "handle_round_1 L E log t")
  from handle_round_1_hosting [OF h]
  obtain new where log1: "log1 = log @ new"
    and q: "\<forall>e. r1 = Inl e \<longrightarrow> (\<forall>repo resp. Http (EnablePages repo) (Inr resp) \<notin> set new)" by blast
  show ?thesis
  proof (cases r1)
    case (Inl e)
    then have "log' = log @ new" using assms(1,2) h log1 by (simp add: handle_task_def)
    then show ?thesis using assms(3) q Inl by simp
  next
    case (Inr sha)
    have "round_of L E log t = (Inr sha, log1)" using assms(1) h Inr by (simp add: round_of_def)
    then have "sha = latest_identifier PyNone (drop (length log) log1)" by (rule round_of_identifier)
    then show ?thesis
      using assms(1,2) h Inr by (auto simp: handle_task_def session_request_def split: sum.splits if_splits)
  qed
qed

theorem hosting_status_is_not_fatal_witness:
  "\<exists>sha log1. handle_round_1 py_lib (example_env [] ''{ 'index.html': '<h1>Hello</h1>' }'' [] 500 200) [] (example_task 1 [])
        = (Inr sha, log1)
     \<and> sha = latest_identifier PyNone log1
     \<and> sha = PyStr ''c0ffee''
     \<and> truthy sha
     \<and> snd (handle_task py_lib (example_env [] ''{ 'index.html': '<h1>Hello</h1>' }'' [] 500 200) [] (example_task 1 []))
        = log1 @ [Http (Notify ''https://sink.example.org/notify''
                 \<lparr> ep_email = ''a@example.org'', ep_task = ''demo-app'', ep_round = 1, ep_nonce = ''n-1'',
                   ep_commit_sha = sha \<rparr>)
           (Inr (plain_response 200 ''ok'' NoJson))]"
proof -
  let ?E = "example_env [] ''{ 'index.html': '<h1>Hello</h1>' }'' [] 500 200"
  let ?t = "example_task 1 []"
  let ?round = "[Http (CreateRepo ''demo-app'') (Inr (plain_response 201 [] NoJson)),
         ChatCompletion (NewAppPrompt ''demo-app'' ''a todo list'' [''has an add button''] [])
           (Inr (Some ''{ 'index.html': '<h1>Hello</h1>' }'')),
         Http (ContentsGet ''demo-app'' ''index.html'') (Inr (plain_response 404 ''Not Found'' NoJson)),
         Http (ContentsPut ''demo-app'' ''index.html'' ''<h1>Hello</h1>'' None)
           (Inr (plain_response 201 [] (Object PyNone (Some (PyStr ''c0ffee''))))),
         Http (EnablePages ''demo-app'') (Inr (plain_response 500 [] NoJson))]"
  let ?n = "Http (Notify ''https://sink.example.org/notify''
                 \<lparr> ep_email = ''a@example.org'', ep_task = ''demo-app'', ep_round = 1, ep_nonce = ''n-1'',
                   ep_commit_sha = PyStr ''c0ffee'' \<rparr>)
           (Inr (plain_response 200 ''ok'' NoJson))"
  have round: "round_number ?t = 1" by (simp add: example_task_def)
  have run: "handle_task py_lib ?E [] ?t = (Inr (), ?round @ [?n])"
    by code_simp
  have hosting: "Http (EnablePages ''demo-app'') (Inr (plain_response 500 [] NoJson))
      \<in> set (drop (length ([] :: event list)) (?round @ [?n]))"
    by simp
  have r1: "handle_round_1 py_lib ?E [] ?t = (Inr (PyStr ''c0ffee''), ?round)"
    by code_simp
  from hosting_status_is_not_fatal [OF round run hosting] r1 run
  show ?thesis by simp
qed

text \<open>
  A run in which the hosting call is answered 500: the task succeeds and the sink is
  notified.
\<close>

theorem hosting_status_is_not_fatal_counterexample:
  "handle_task py_lib (example_env [] ''{ 'index.html': '<h1>Hello</h1>' }'' [] 500 200) [] (example_task 1 [])
     = (Inr (),
        [Http (CreateRepo ''demo-app'') (Inr (plain_response 201 [] NoJson)),
         ChatCompletion (NewAppPrompt ''demo-app'' ''a todo list'' [''has an add button''] [])
           (Inr (Some ''{ 'index.html': '<h1>Hello</h1>' }'')),
         Http (ContentsGet ''demo-app'' ''index.html'') (Inr (plain_response 404 ''Not Found'' NoJson)),
         Http (ContentsPut ''demo-app'' ''index.html'' ''<h1>Hello</h1>'' None)
           (Inr (plain_response 201 [] (Object PyNone (Some (PyStr ''c0ffee''))))),
         Http (EnablePages ''demo-app'') (Inr (plain_response 500 [] NoJson)),
         Http (Notify ''https://sink.example.org/notify''
                 \<lparr> ep_email = ''a@example.org'', ep_task = ''demo-app'', ep_round = 1, ep_nonce = ''n-1'',
                   ep_commit_sha = PyStr ''c0ffee'' \<rparr>)
           (Inr (plain_response 200 ''ok'' NoJson))])"
  by (simp add: run_simps)


section \<open>The intake endpoint\<close>

text \<open>
  Claim C9, as the code has it. With the right secret, \<^verbatim>\<open>receive_task\<close> answers its
  acknowledgement exactly when \<^verbatim>\<open>handle_task\<close> has returned without an exception, and
  HTTP 500 with the exception's message when it has raised; the answer comes after every
  call of \<^verbatim>\<open>handle_task\<close>.
\<close>

theorem response_follows_handle_task:
  "(fst (receive_task L E log expected req) = Ok ''ok'' ''Task received and being processed.''
      \<longleftrightarrow> Some (secret req) = expected \<and> fst (handle_task L E log req) = Inr ())
   \<and> (Some (secret req) = expected \<longrightarrow>
         snd (receive_task L E log expected req) = snd (handle_task L E log req)
         \<and> (\<forall>e. fst (handle_task L E log req) = Inl e \<longrightarrow>
               fst (receive_task L E log expected req) = HTTPException 500 (snd e)))"
  by (auto simp: receive_task_def split: prod.splits sum.splits)

theorem response_follows_handle_task_witness:
  "snd (receive_task py_lib (example_env [] ''{}'' [] 201 200) [] (Some ''s3cret'') (example_task 1 []))
     = [Http (CreateRepo ''demo-app'') (Inr (plain_response 201 [] NoJson)),
        ChatCompletion (NewAppPrompt ''demo-app'' ''a todo list'' [''has an add button''] []) (Inr (Some ''{}'')),
        Http (EnablePages ''demo-app'') (Inr (plain_response 201 [] NoJson))]
   \<and> fst (receive_task py_lib (example_env [] ''{}'' [] 201 200) [] (Some ''s3cret'') (example_task 1 []))
     = HTTPException 500 ''Failed to retrieve a valid commit SHA.''"
proof -
  let ?E = "example_env [] ''{}'' [] 201 200"
  have secret: "Some (secret (example_task 1 [])) = Some ''s3cret''" by (simp add: example_task_def)
  have run: "handle_task py_lib ?E [] (example_task 1 [])
     = (Inl (Exception, ''Failed to retrieve a valid commit SHA.''),
        [Http (CreateRepo ''demo-app'') (Inr (plain_response 201 [] NoJson)),
         ChatCompletion (NewAppPrompt ''demo-app'' ''a todo list'' [''has an add button''] []) (Inr (Some ''{}'')),
         Http (EnablePages ''demo-app'') (Inr (plain_response 201 [] NoJson))])"
    by (simp add: run_simps)
  from response_follows_handle_task [of py_lib ?E "[]" "Some ''s3cret''" "example_task 1 []"] secret run
  show ?thesis by simp
qed

text \<open>
  Two worlds that differ in the answer of the evaluation sink only: the endpoint answers
  the acknowledgement in one and HTTP 500 in the other.
\<close>

theorem response_follows_handle_task_counterexample:
  "fst (receive_task py_lib (example_env [] ''{ 'index.html': '<h1>Hello</h1>' }'' [] 201 200) []
          (Some ''s3cret'') (example_task 1 []))
     = Ok ''ok'' ''Task received and being processed.''
   \<and> fst (receive_task py_lib (example_env [] ''{ 'index.html': '<h1>Hello</h1>' }'' [] 201 500) []
          (Some ''s3cret'') (example_task 1 []))
     = HTTPException 500 ''Evaluation notification failed: sink says no''"
  by (simp add: receive_task_def run_simps)

section \<open>The publisher\<close>













end
